theory Spec2Isabelle
  imports Main
begin

section \<open>Data of the orchestration core (src/app.ts)\<close>

text \<open>
  The class \<open>GlslLivecoder\<close> of \<open>src/app.ts\<close> ties an editor, a configuration object,
  a rendering backend and an OSC listener together. Its collaborators (validator,
  preprocessor, configuration, backends, OSC loader, Node's \<open>path\<close>) live in other
  modules; the embedding takes them as an environment of functions and records every
  call that has an effect on a collaborator in a trace.
\<close>

subsection \<open>Errors and diagnostics\<close>

datatype error =
    TypeError
  | GlslifyError string
  | ValidatorError string
  | LoadFileError string

text \<open>What \<open>console.error\<close> is called with: a fixed message or a caught value.\<close>

datatype diagnostic = Message string | Caught error

subsection \<open>Pass specifications and assembled passes\<close>

text \<open>
  An entry of \<open>rc.PASSES\<close>. Every property may be missing (\<open>None\<close> is \<open>undefined\<close>);
  \<open>vs\<close> and \<open>fs\<close> are paths of shader files.
\<close>

record rcPass =
  TARGET :: "string option"
  FLOAT :: "bool option"
  WIDTH :: "string option"
  HEIGHT :: "string option"
  vs :: "string option"
  fs :: "string option"

text \<open>
  The object built for each entry by \<open>createPasses\<close>: the same properties, with \<open>vs\<close>
  and \<open>fs\<close> now holding shader text. A property never assigned stays \<open>None\<close>.
\<close>

record pass =
  TARGET :: "string option"
  FLOAT :: "bool option"
  WIDTH :: "string option"
  HEIGHT :: "string option"
  vs :: "string option"
  fs :: "string option"

text \<open>JavaScript truthiness of an optional string: \<open>undefined\<close> and \<open>''\<close> are falsy.\<close>

fun truthy_str :: "string option \<Rightarrow> bool" where
  "truthy_str None = False"
| "truthy_str (Some s) = (s \<noteq> [])"

text \<open>The literal \<open>{}\<close> pushed onto an empty pass list.\<close>

definition empty_rcPass :: rcPass where
  "empty_rcPass =
     \<lparr>rcPass.TARGET = None, rcPass.FLOAT = None, rcPass.WIDTH = None, rcPass.HEIGHT = None,
      rcPass.vs = None, rcPass.fs = None\<rparr>"

subsection \<open>Configuration snapshots and diffs\<close>

text \<open>
  The type \<open>Rc\<close> is declared in \<open>./config\<close>; these are the properties \<open>app.ts\<close> reads.
\<close>

record Rc =
  glslangValidatorPath :: string
  glslify :: bool
  PASSES :: "rcPass list"

text \<open>
  The \<open>added\<close> side of an \<open>RcDiff\<close>. Each property may be missing from the diff
  (\<open>None\<close> is \<open>undefined\<close>). The values of \<open>server\<close> and \<open>osc\<close> are \<open>null\<close> (inner
  \<open>None\<close>) or a number, modelled on the integers.
\<close>

record added =
  glslangValidatorPath :: "string option"
  server :: "int option option"
  osc :: "int option option"

text \<open>JavaScript truthiness of \<open>null\<close> or a number: \<open>null\<close> and \<open>0\<close> are falsy.\<close>

fun truthy_num :: "int option \<Rightarrow> bool" where
  "truthy_num None = False"
| "truthy_num (Some n) = (n \<noteq> 0)"

subsection \<open>The collaborators\<close>

text \<open>
  The environment of one run: \<open>loadFile\<close> and \<open>validator\<close> of \<open>./validator\<close> (promises,
  \<open>Inl\<close> when rejected), \<open>glslify\<close> (a synchronous call, \<open>Inl\<close> when it throws),
  \<open>path.resolve\<close> and \<open>path.dirname\<close> on strings, and the methods of the configuration
  object, whose own state is a value of type \<open>'cfg\<close>. The methods of the configuration
  object and of the backends are taken to return normally.

  Two more parameters stand for what the run does not fix in the source.
  \<open>first_rejected\<close> tells which of several rejected tasks of a \<open>Promise.all\<close> was
  rejected first in time: given the errors of the rejected tasks in list order, it
  gives an index into that list (read modulo its length). \<open>toString_large\<close> is the text
  \<open>Number.prototype.toString\<close> prints for an integer that is not a safe integer.
\<close>

record 'cfg env =
  loadFile :: "string \<Rightarrow> string \<Rightarrow> error + string"
  validator :: "string \<Rightarrow> string \<Rightarrow> string \<Rightarrow> error + unit"
  glslify :: "string \<Rightarrow> string \<Rightarrow> error + string"
  path_resolve :: "string \<Rightarrow> string \<Rightarrow> string"
  path_dirname :: "string \<Rightarrow> string"
  setFileSettingsByString :: "'cfg \<Rightarrow> string \<Rightarrow> string option \<Rightarrow> 'cfg"
  setSoundSettingsByString :: "'cfg \<Rightarrow> string \<Rightarrow> string option \<Rightarrow> 'cfg"
  createRc :: "'cfg \<Rightarrow> Rc"
  createSoundRc :: "'cfg \<Rightarrow> Rc"
  projectPath :: "'cfg \<Rightarrow> string"
  first_rejected :: "error list \<Rightarrow> nat"
  toString_large :: "int \<Rightarrow> string"

section \<open>createPasses\<close>

text \<open>
  The body of the \<open>async\<close> function mapped over the pass list, for the entry \<open>rcPass\<close>
  at index \<open>i\<close>. An \<open>await\<close> of a rejected \<open>loadFile\<close> rejects the task: \<open>Inl\<close>.
\<close>

definition is_vertex_postfix :: "string \<Rightarrow> bool" where
  "is_vertex_postfix postfix = (postfix = ''.vert'' \<or> postfix = ''.vs'')"

definition is_fragment_postfix :: "string \<Rightarrow> bool" where
  "is_fragment_postfix postfix = (postfix = ''.frag'' \<or> postfix = ''.fs'')"

definition load_vs ::
  "'cfg env \<Rightarrow> string \<Rightarrow> string \<Rightarrow> string \<Rightarrow> string \<Rightarrow> nat \<Rightarrow> rcPass \<Rightarrow> nat \<Rightarrow> pass
     \<Rightarrow> error + pass" where
  "load_vs E validatorPath shader postfix dirname lastPass rcPass i p =
     (case rcPass.vs rcPass of
        None \<Rightarrow> Inr p
      | Some file \<Rightarrow>
          if file = [] then Inr p
          else (case loadFile E validatorPath (path_resolve E dirname file) of
                  Inl e \<Rightarrow> Inl e
                | Inr text \<Rightarrow>
                    Inr (if i = lastPass \<and> is_fragment_postfix postfix
                         then p\<lparr>vs := Some text, fs := Some shader\<rparr>
                         else p\<lparr>vs := Some text\<rparr>)))"

definition load_fs ::
  "'cfg env \<Rightarrow> string \<Rightarrow> string \<Rightarrow> string \<Rightarrow> string \<Rightarrow> nat \<Rightarrow> rcPass \<Rightarrow> nat \<Rightarrow> pass
     \<Rightarrow> error + pass" where
  "load_fs E validatorPath shader postfix dirname lastPass rcPass i p =
     (case rcPass.fs rcPass of
        None \<Rightarrow> Inr p
      | Some file \<Rightarrow>
          if file = [] then Inr p
          else (case loadFile E validatorPath (path_resolve E dirname file) of
                  Inl e \<Rightarrow> Inl e
                | Inr text \<Rightarrow>
                    Inr (if i = lastPass \<and> is_vertex_postfix postfix
                         then p\<lparr>fs := Some text, vs := Some shader\<rparr>
                         else p\<lparr>fs := Some text\<rparr>)))"

definition assemble ::
  "'cfg env \<Rightarrow> string \<Rightarrow> string \<Rightarrow> string \<Rightarrow> string \<Rightarrow> nat \<Rightarrow> rcPass \<Rightarrow> nat \<Rightarrow> error + pass" where
  "assemble E validatorPath shader postfix dirname lastPass rcPass i =
     (let p = \<lparr>TARGET = rcPass.TARGET rcPass, FLOAT = rcPass.FLOAT rcPass,
                WIDTH = rcPass.WIDTH rcPass, HEIGHT = rcPass.HEIGHT rcPass,
                vs = None, fs = None\<rparr>
      in if \<not> truthy_str (rcPass.fs rcPass) \<and> \<not> truthy_str (rcPass.vs rcPass) then
           (if is_vertex_postfix postfix then Inr (p\<lparr>vs := Some shader\<rparr>)
            else Inr (p\<lparr>fs := Some shader\<rparr>))
         else
           (case load_vs E validatorPath shader postfix dirname lastPass rcPass i p of
              Inl e \<Rightarrow> Inl e
            | Inr p' \<Rightarrow> load_fs E validatorPath shader postfix dirname lastPass rcPass i p'))"

text \<open>
  \<open>Promise.all\<close>: when no task is rejected, the list of all results in the order of
  the tasks; otherwise a rejection with the error of the task that was rejected first
  in time, which the parameter \<open>first\<close> picks among the rejected tasks. The tasks do
  not share state, so their results do not depend on how they interleave.
\<close>

fun rejections :: "(error + 'a) list \<Rightarrow> error list" where
  "rejections [] = []"
| "rejections (Inl e # rs) = e # rejections rs"
| "rejections (Inr x # rs) = rejections rs"

fun resolutions :: "(error + 'a) list \<Rightarrow> 'a list" where
  "resolutions [] = []"
| "resolutions (Inl e # rs) = resolutions rs"
| "resolutions (Inr x # rs) = x # resolutions rs"

definition promise_all :: "(error list \<Rightarrow> nat) \<Rightarrow> (error + 'a) list \<Rightarrow> error + 'a list" where
  "promise_all first rs =
     (let es = rejections rs
      in if es = [] then Inr (resolutions rs)
         else Inl (es ! (first es mod length es)))"

text \<open>\<open>if (rcPasses.length === 0) { rcPasses.push({}); }\<close>\<close>

definition push_default :: "rcPass list \<Rightarrow> rcPass list" where
  "push_default rcPasses = (if length rcPasses = 0 then rcPasses @ [empty_rcPass] else rcPasses)"

definition createPasses ::
  "'cfg env \<Rightarrow> string \<Rightarrow> rcPass list \<Rightarrow> string \<Rightarrow> string \<Rightarrow> string \<Rightarrow> error + pass list" where
  "createPasses E validatorPath rcPasses0 shader postfix dirname =
     (let rcPasses = push_default rcPasses0;
          lastPass = length rcPasses - 1
      in promise_all (first_rejected E)
           (map (\<lambda>(i, rcPass). assemble E validatorPath shader postfix dirname lastPass rcPass i)
                (enumerate 0 rcPasses)))"

section \<open>Session state\<close>

text \<open>
  Objects are told apart by a number given at construction (\<open>next_id\<close> counts the
  objects built so far). A backend is one of the two classes behind \<open>Playable\<close>, with
  the arguments of its constructor after its own number: \<open>new Player(view, rc,
  isPlaying, lastShader)\<close>, where the view is given by its number, and
  \<open>new PlayerServer(server, {rc, isPlaying, projectPath, lastShader})\<close>.
\<close>

datatype playable =
    Player nat nat Rc bool "pass list"
  | PlayerServer nat int Rc bool string "pass list"

fun playable_id :: "playable \<Rightarrow> nat" where
  "playable_id (Player i view rc playing shader) = i"
| "playable_id (PlayerServer i srv rc playing project shader) = i"

text \<open>
  Modelled from the spec: the class \<open>OscLoader\<close> of \<open>./osc-loader\<close> is constructed with a
  port and exposes it as its \<open>port\<close> property.
\<close>

record OscLoader =
  oid :: nat
  port :: int

text \<open>The calls that reach a collaborator, in the order they are made.\<close>

datatype event =
    ConsoleError diagnostic
  | New_View nat
  | New_Playable playable
  | Playable_stop nat
  | Playable_loadShader nat "pass list"
  | Playable_loadSoundShader nat string
  | New_OscLoader nat int
  | OscLoader_destroy nat
  | OscLoader_on nat string

text \<open>
  The fields of \<open>GlslLivecoder\<close> (\<open>isPlaying\<close> is \<open>this.state.isPlaying\<close>), the state of
  the configuration object, the object counter and the trace.
\<close>

record 'cfg state =
  player :: playable
  isPlaying :: bool
  glslangValidatorPath :: string
  lastShader :: "pass list"
  lastSoundShader :: string
  osc :: "OscLoader option"
  config :: 'cfg
  next_id :: nat
  trace :: "event list"

definition emit :: "event list \<Rightarrow> 'cfg state \<Rightarrow> 'cfg state" where
  "emit es s = s\<lparr>trace := trace s @ es\<rparr>"

section \<open>Numbers as text: \<open>parseInt(port.toString(), 10)\<close>\<close>

text \<open>
  Ports are JavaScript numbers; the model takes them on the integers. A safe integer
  (\<open>Number.isSafeInteger\<close>: magnitude at most \<open>2^53 - 1\<close>) is a number exactly, and
  \<open>Number.prototype.toString\<close> prints its decimal digits, with a minus sign when
  negative. Beyond that range JavaScript prints the shortest digits that read back as
  the same floating-point number, in exponent notation from \<open>10^21\<close> on; the model
  takes that text from the environment. Numbers with a fraction are not modelled.
\<close>

definition isSafeInteger :: "int \<Rightarrow> bool" where
  "isSafeInteger n = (\<bar>n\<bar> \<le> 2 ^ 53 - 1)"

definition digit_char :: "nat \<Rightarrow> char" where
  "digit_char d = char_of (48 + d)"

fun nat_digits :: "nat \<Rightarrow> string" where
  "nat_digits n = (if n < 10 then [digit_char n] else nat_digits (n div 10) @ [digit_char (n mod 10)])"

declare nat_digits.simps [simp del]

definition Number_toString :: "'cfg env \<Rightarrow> int \<Rightarrow> string" where
  "Number_toString E n =
     (if isSafeInteger n
      then (if n < 0 then CHR ''-'' # nat_digits (nat (- n)) else nat_digits (nat n))
      else toString_large E n)"

text \<open>
  \<open>parseInt(s, 10)\<close>: leading white space is skipped (here: the ASCII white space
  characters), a sign is read, then the longest run of decimal digits; \<open>NaN\<close> (here
  \<open>None\<close>) when there is no digit.
\<close>

definition is_digit :: "char \<Rightarrow> bool" where
  "is_digit c = (48 \<le> (of_char c :: nat) \<and> (of_char c :: nat) \<le> 57)"

definition is_space :: "char \<Rightarrow> bool" where
  "is_space c = ((of_char c :: nat) \<in> {9, 10, 11, 12, 13, 32})"

definition digits_value :: "string \<Rightarrow> nat" where
  "digits_value ds = foldl (\<lambda>acc c. acc * 10 + ((of_char c :: nat) - 48)) 0 ds"

definition parseInt10 :: "string \<Rightarrow> int option" where
  "parseInt10 s =
     (let t = dropWhile is_space s;
          neg = (t \<noteq> [] \<and> hd t = CHR ''-'');
          u = (if t \<noteq> [] \<and> (hd t = CHR ''-'' \<or> hd t = CHR ''+'') then tl t else t);
          ds = takeWhile is_digit u
      in if ds = [] then None
         else Some (if neg then - int (digits_value ds) else int (digits_value ds)))"

section \<open>onAnyChanges\<close>

text \<open>
  The three blocks of \<open>onAnyChanges\<close>, in the order of the source. Where \<open>the\<close> reads
  a value, a truthiness test has shown before that it is not \<open>undefined\<close> or \<open>null\<close>.
\<close>

definition onAnyChanges_glslangValidatorPath :: "added \<Rightarrow> 'cfg state \<Rightarrow> 'cfg state" where
  "onAnyChanges_glslangValidatorPath a s =
     (if truthy_str (added.glslangValidatorPath a)
      then s\<lparr>glslangValidatorPath := the (added.glslangValidatorPath a)\<rparr>
      else s)"

text \<open>
  \<open>this.player\<close> always holds an object, so the test \<open>if (this.player)\<close> succeeds and the
  old backend is stopped first. A truthy \<open>added.server\<close> builds a \<open>PlayerServer\<close>; \<open>null\<close>
  or \<open>0\<close> builds a \<open>View\<close> and a \<open>Player\<close> on it.
\<close>

definition onAnyChanges_server :: "'cfg env \<Rightarrow> added \<Rightarrow> 'cfg state \<Rightarrow> 'cfg state" where
  "onAnyChanges_server E a s =
     (case added.server a of
        None \<Rightarrow> s
      | Some srv \<Rightarrow>
          (let s1 = emit [Playable_stop (playable_id (player s))] s;
               rc = createRc E (config s1)
           in if truthy_num srv then
                (let p = PlayerServer (next_id s1) (the srv) rc (isPlaying s1)
                           (projectPath E (config s1)) (lastShader s1)
                 in emit [New_Playable p] (s1\<lparr>player := p, next_id := next_id s1 + 1\<rparr>))
              else
                (let view = next_id s1;
                     p = Player (view + 1) view rc (isPlaying s1) (lastShader s1)
                 in emit [New_View view, New_Playable p]
                      (s1\<lparr>player := p, next_id := view + 2\<rparr>))))"

text \<open>
  The live listener is destroyed when the new port is falsy or differs from the port it
  is bound to; a listener is built when the new port is truthy and none is left.
\<close>

definition onAnyChanges_osc :: "'cfg env \<Rightarrow> added \<Rightarrow> 'cfg state \<Rightarrow> 'cfg state" where
  "onAnyChanges_osc E a s =
     (case added.osc a of
        None \<Rightarrow> s
      | Some prt \<Rightarrow>
          (let s1 = (case osc s of
                       None \<Rightarrow> s
                     | Some l \<Rightarrow>
                         if \<not> truthy_num prt
                            \<or> Some (port l) \<noteq> parseInt10 (Number_toString E (the prt))
                         then emit [OscLoader_destroy (oid l)] (s\<lparr>osc := None\<rparr>)
                         else s)
           in if truthy_num prt \<and> osc s1 = None then
                (let l = \<lparr>oid = next_id s1, port = the prt\<rparr>
                 in emit [New_OscLoader (oid l) (port l),
                          OscLoader_on (oid l) ''message'', OscLoader_on (oid l) ''reload'']
                      (s1\<lparr>osc := Some l, next_id := next_id s1 + 1\<rparr>))
              else s1))"

definition onAnyChanges :: "'cfg env \<Rightarrow> added \<Rightarrow> 'cfg state \<Rightarrow> 'cfg state" where
  "onAnyChanges E a s =
     onAnyChanges_osc E a (onAnyChanges_server E a (onAnyChanges_glslangValidatorPath a s))"

section \<open>loadShaderOfEditor\<close>

text \<open>
  The active editor as the pipeline reads it: \<open>getPath()\<close> is \<open>undefined\<close> for a buffer
  that has no file yet.
\<close>

record TextEditor =
  getPath :: "string option"
  getText :: string

text \<open>
  The first match of \<open>/(\.(?:glsl|frag|vert|fs|vs))$/\<close>: the extension the path ends
  with, if it is one of the five.
\<close>

definition ends_with :: "string \<Rightarrow> string \<Rightarrow> bool" where
  "ends_with sfx str = (length sfx \<le> length str \<and> drop (length str - length sfx) str = sfx)"

definition match_postfix :: "string \<Rightarrow> string option" where
  "match_postfix filepath =
     find (\<lambda>sfx. ends_with sfx filepath) [''.glsl'', ''.frag'', ''.vert'', ''.fs'', ''.vs'']"

text \<open>
  Group 1 of the first match of \<open>/(?:\/\*)((?:.|\n|\r|\n\r)*?)(?:\*\/)/\<close>: the text
  between the first \<open>/*\<close> and the first \<open>*/\<close> after it; \<open>undefined\<close> without a match.
\<close>

fun split_on :: "string \<Rightarrow> string \<Rightarrow> (string \<times> string) option" where
  "split_on pat [] = (if pat = [] then Some ([], []) else None)"
| "split_on pat (c # cs) =
     (if take (length pat) (c # cs) = pat then Some ([], drop (length pat) (c # cs))
      else (case split_on pat cs of
              None \<Rightarrow> None
            | Some (before, after) \<Rightarrow> Some (c # before, after)))"

definition headComment :: "string \<Rightarrow> string option" where
  "headComment shader =
     (case split_on ''/*'' shader of
        None \<Rightarrow> None
      | Some (before, rest) \<Rightarrow>
          (case split_on ''*/'' rest of
             None \<Rightarrow> None
           | Some (comment, after) \<Rightarrow> Some comment))"

text \<open>
  How a call of \<open>loadShaderOfEditor\<close> ends for its caller: with a promise that is
  resolved or rejected, or with an exception thrown before a promise is returned.
\<close>

datatype completion = Resolved | Rejected error | Thrown error

text \<open>
  The chain of \<open>then\<close> steps up to the last one: preprocessing, validation (visual
  mode), pass assembly. \<open>Inl\<close> is the rejection the final \<open>catch\<close> receives.
\<close>

definition build ::
  "'cfg env \<Rightarrow> string \<Rightarrow> Rc \<Rightarrow> bool \<Rightarrow> string \<Rightarrow> string \<Rightarrow> string \<Rightarrow> string
     \<Rightarrow> error + string \<times> pass list" where
  "build E validatorPath rc isSound filepath postfix dirname shader0 =
     (case (if Rc.glslify rc then env.glslify E shader0 (path_dirname E filepath) else Inr shader0) of
        Inl e \<Rightarrow> Inl e
      | Inr shader \<Rightarrow>
          (case (if \<not> isSound then validator E validatorPath shader postfix else Inr ()) of
             Inl e \<Rightarrow> Inl e
           | Inr u \<Rightarrow>
               (case createPasses E validatorPath (PASSES rc) shader postfix dirname of
                  Inl e \<Rightarrow> Inl e
                | Inr passes \<Rightarrow> Inr (shader, passes))))"

text \<open>
  One call of \<open>loadShaderOfEditor\<close>, run to the end without another call in between.
  \<open>path.dirname\<close> throws a \<open>TypeError\<close> when its argument is not a string, which is the
  case for an editor without a path; that call is made before the promise chain.
\<close>

definition loadShaderOfEditor ::
  "'cfg env \<Rightarrow> TextEditor option \<Rightarrow> bool \<Rightarrow> 'cfg state \<Rightarrow> completion \<times> 'cfg state" where
  "loadShaderOfEditor E editor isSound s =
     (case editor of
        None \<Rightarrow> (Resolved, s)
      | Some ed \<Rightarrow>
          (case getPath ed of
             None \<Rightarrow> (Thrown TypeError, s)
           | Some filepath \<Rightarrow>
               (let dirname = path_dirname E filepath in
                case match_postfix filepath of
                  None \<Rightarrow>
                    (Resolved,
                     emit [ConsoleError
                             (Message ''The filename for current doesn't seems to be GLSL.'')] s)
                | Some postfix \<Rightarrow>
                    (let shader0 = getText ed;
                         hc = headComment shader0;
                         cfg = (if isSound
                                then setSoundSettingsByString E (config s) filepath hc
                                else setFileSettingsByString E (config s) filepath hc);
                         rc = (if isSound then createSoundRc E cfg else createRc E cfg);
                         s1 = s\<lparr>config := cfg\<rparr>
                     in case build E (state.glslangValidatorPath s1) rc isSound filepath postfix
                               dirname shader0 of
                          Inl e \<Rightarrow> (Resolved, emit [ConsoleError (Caught e)] s1)
                        | Inr (shader, passes) \<Rightarrow>
                            if isSound then
                              (Resolved,
                               (emit [Playable_loadSoundShader (playable_id (player s1)) shader] s1)
                                 \<lparr>lastSoundShader := shader\<rparr>)
                            else
                              (Resolved,
                               (emit [Playable_loadShader (playable_id (player s1)) passes] s1)
                                 \<lparr>lastShader := passes\<rparr>)))))"

text \<open>The public triggers; the active editor is the argument.\<close>

definition loadShader :: "'cfg env \<Rightarrow> TextEditor option \<Rightarrow> 'cfg state \<Rightarrow> completion \<times> 'cfg state" where
  "loadShader E editor s = loadShaderOfEditor E editor False s"

definition loadSoundShader :: "'cfg env \<Rightarrow> TextEditor option \<Rightarrow> 'cfg state \<Rightarrow> completion \<times> 'cfg state" where
  "loadSoundShader E editor s = loadShaderOfEditor E editor True s"

section \<open>Reading the trace\<close>

text \<open>The calls a run has added to the trace of the state it started from.\<close>

definition new_events :: "'cfg state \<Rightarrow> 'cfg state \<Rightarrow> event list" where
  "new_events s s' = drop (length (trace s)) (trace s')"

text \<open>Calls on a backend (its construction included), and calls on an OSC listener.\<close>

fun is_playable_event :: "event \<Rightarrow> bool" where
  "is_playable_event (New_Playable p) = True"
| "is_playable_event (Playable_stop i) = True"
| "is_playable_event (Playable_loadShader i passes) = True"
| "is_playable_event (Playable_loadSoundShader i text) = True"
| "is_playable_event e = False"

fun is_osc_event :: "event \<Rightarrow> bool" where
  "is_osc_event (New_OscLoader i p) = True"
| "is_osc_event (OscLoader_destroy i) = True"
| "is_osc_event (OscLoader_on i name) = True"
| "is_osc_event e = False"

text \<open>
  The OSC listeners that are live after a trace: those constructed and not destroyed
  since.
\<close>

fun live_after :: "nat set \<Rightarrow> event \<Rightarrow> nat set" where
  "live_after L (New_OscLoader i p) = insert i L"
| "live_after L (OscLoader_destroy i) = L - {i}"
| "live_after L e = L"

definition live_oscs :: "event list \<Rightarrow> nat set" where
  "live_oscs es = foldl live_after {} es"

text \<open>The listener the field \<open>osc\<close> holds is the only live one.\<close>

definition osc_owned :: "'cfg state \<Rightarrow> bool" where
  "osc_owned s = (live_oscs (trace s) = (case osc s of None \<Rightarrow> {} | Some l \<Rightarrow> {oid l}))"

text \<open>
  A listener is live, the new port is truthy, and it is the port the listener is bound
  to.
\<close>

text \<open>The new port is \<open>null\<close> or a safe integer.\<close>

fun safe_port :: "int option \<Rightarrow> bool" where
  "safe_port None = True"
| "safe_port (Some n) = isSafeInteger n"

definition same_port :: "int option \<Rightarrow> OscLoader option \<Rightarrow> bool" where
  "same_port prt live =
     (case live of None \<Rightarrow> False | Some l \<Rightarrow> truthy_num prt \<and> prt = Some (port l))"

section \<open>A concrete run\<close>

text \<open>
  An environment, specifications and a state on which the functions can be evaluated:
  a directory \<open>/d\<close> with the files \<open>a.vert\<close> and \<open>b.frag\<close>, a validator that rejects
  the text \<open>bad\<close>, a preprocessor that appends a character, and a configuration whose
  state is the last head comment it was given: the comment \<open>g\<close> turns preprocessing on,
  the comment \<open>p\<close> asks for a pass whose vertex shader is a file that does not exist.
  Of several rejected tasks the first in list order is the first in time. The only large
  number the runs below print is \<open>10^21\<close>, which JavaScript prints as \<open>1e+21\<close>.
\<close>

definition rc0 :: "string option \<Rightarrow> Rc" where
  "rc0 cfg =
     \<lparr>Rc.glslangValidatorPath = ''glslangValidator'',
      glslify = (cfg = Some ''g''),
      PASSES = (if cfg = Some ''p'' then [empty_rcPass\<lparr>rcPass.vs := Some ''missing.vert''\<rparr>]
                else [])\<rparr>"

definition env0 :: "string option env" where
  "env0 =
     \<lparr>loadFile = (\<lambda>validatorPath file.
          if file = ''/d/a.vert'' then Inr ''VS_TEXT''
          else if file = ''/d/b.frag'' then Inr ''FS_TEXT''
          else Inl (LoadFileError file)),
      validator = (\<lambda>validatorPath text postfix.
          if text = ''bad'' then Inl (ValidatorError text) else Inr ()),
      glslify = (\<lambda>text basedir.
          if text = ''/*g*/bad'' then Inl (GlslifyError text) else Inr (text @ ''#'')),
      path_resolve = (\<lambda>dir file. dir @ ''/'' @ file),
      path_dirname = (\<lambda>file. ''/d''),
      setFileSettingsByString = (\<lambda>cfg file hc. hc),
      setSoundSettingsByString = (\<lambda>cfg file hc. hc),
      createRc = rc0,
      createSoundRc = rc0,
      projectPath = (\<lambda>cfg. ''/proj''),
      first_rejected = (\<lambda>es. 0),
      toString_large = (\<lambda>n. ''1e+21'')\<rparr>"

text \<open>The same environment with every file present.\<close>

definition env1 :: "string option env" where
  "env1 = env0\<lparr>loadFile := (\<lambda>validatorPath file. Inr ''VS_TEXT'')\<rparr>"

definition editor0 :: "string \<Rightarrow> string \<Rightarrow> TextEditor" where
  "editor0 file text = \<lparr>getPath = Some file, getText = text\<rparr>"

definition vs_only :: rcPass where
  "vs_only = empty_rcPass\<lparr>rcPass.vs := Some ''a.vert''\<rparr>"

definition fs_only :: rcPass where
  "fs_only = empty_rcPass\<lparr>rcPass.fs := Some ''b.frag''\<rparr>"

definition vs_and_fs :: rcPass where
  "vs_and_fs = empty_rcPass\<lparr>rcPass.vs := Some ''a.vert'', rcPass.fs := Some ''b.frag''\<rparr>"

definition pass0 :: pass where
  "pass0 = \<lparr>TARGET = None, FLOAT = None, WIDTH = None, HEIGHT = None, vs = None, fs = None\<rparr>"

definition state0 :: "string option state" where
  "state0 =
     \<lparr>player = Player 1 0 (rc0 None) False [pass0\<lparr>fs := Some ''initial''\<rparr>],
      isPlaying = True,
      glslangValidatorPath = ''glslangValidator'',
      lastShader = [pass0\<lparr>fs := Some ''initial''\<rparr>],
      lastSoundShader = ''initial sound'',
      osc = None,
      config = None,
      next_id = 2,
      trace = []\<rparr>"

text \<open>Configuration diffs: a new OSC port, a cleared OSC port, a new server.\<close>

definition diff_osc :: "int option \<Rightarrow> added" where
  "diff_osc prt = \<lparr>added.glslangValidatorPath = None, server = None, osc = Some prt\<rparr>"

definition diff_server :: "int option \<Rightarrow> added" where
  "diff_server srv = \<lparr>added.glslangValidatorPath = None, server = Some srv, osc = None\<rparr>"

text \<open>The state after port 7000 has been configured.\<close>

definition state7000 :: "string option state" where
  "state7000 = onAnyChanges env0 (diff_osc (Some 7000)) state0"

text \<open>The state after the number \<open>10^21\<close> has been configured as the port.\<close>

definition state_large :: "string option state" where
  "state_large = onAnyChanges env0 (diff_osc (Some (10 ^ 21))) state0"

section \<open>Properties of createPasses\<close>

lemma rejections_map_Inr: "rejections (map Inr xs) = []"
  by (induction xs) simp_all

lemma resolutions_map_Inr: "resolutions (map Inr xs) = xs"
  by (induction xs) simp_all

lemma no_rejections_D: "rejections rs = [] \<Longrightarrow> rs = map Inr (resolutions rs)"
proof (induction rs)
  case Nil
  then show ?case by simp
next
  case (Cons r rs)
  then show ?case by (cases r) simp_all
qed

lemma promise_all_map_Inr: "promise_all first (map Inr xs) = Inr xs"
  by (simp add: promise_all_def rejections_map_Inr resolutions_map_Inr)

lemma promise_all_Inr_D: "promise_all first rs = Inr xs \<Longrightarrow> rs = map Inr xs"
  using no_rejections_D [of rs]
  by (auto simp: promise_all_def Let_def split: if_splits)

lemma promise_all_Inr_iff: "promise_all first rs = Inr xs \<longleftrightarrow> rs = map Inr xs"
  using promise_all_Inr_D promise_all_map_Inr by blast

text \<open>A rejection of \<open>Promise.all\<close> is the rejection of one of the tasks.\<close>

lemma rejections_set: "e \<in> set (rejections rs) \<longleftrightarrow> Inl e \<in> set rs"
proof (induction rs)
  case Nil
  show ?case by simp
next
  case (Cons r rs)
  then show ?case by (cases r) auto
qed

lemma promise_all_Inl_D: "promise_all first rs = Inl e \<Longrightarrow> Inl e \<in> set rs"
proof -
  assume "promise_all first rs = Inl e"
  then have ne: "rejections rs \<noteq> []"
    and e: "e = rejections rs ! (first (rejections rs) mod length (rejections rs))"
    by (auto simp: promise_all_def Let_def split: if_splits)
  from ne have "first (rejections rs) mod length (rejections rs) < length (rejections rs)"
    by simp
  with e have "e \<in> set (rejections rs)"
    by (metis nth_mem)
  then show ?thesis
    by (simp add: rejections_set)
qed

lemma length_push_default: "length (push_default rcPasses) = max (length rcPasses) 1"
  by (cases rcPasses) (simp_all add: push_default_def)

lemma createPasses_Inr_iff:
  "createPasses E vp rcPasses shader postfix dirname = Inr passes \<longleftrightarrow>
     length passes = length (push_default rcPasses) \<and>
     (\<forall>i < length (push_default rcPasses).
        assemble E vp shader postfix dirname (length (push_default rcPasses) - 1)
          (push_default rcPasses ! i) i = Inr (passes ! i))"
  unfolding createPasses_def Let_def promise_all_Inr_iff
  by (auto simp: list_eq_iff_nth_eq nth_enumerate_eq)

lemma assemble_neither:
  assumes "\<not> truthy_str (rcPass.vs r)" and "\<not> truthy_str (rcPass.fs r)"
  shows "assemble E vp shader postfix dirname lastPass r i =
           Inr \<lparr>TARGET = rcPass.TARGET r, FLOAT = rcPass.FLOAT r, WIDTH = rcPass.WIDTH r,
                HEIGHT = rcPass.HEIGHT r,
                vs = (if is_vertex_postfix postfix then Some shader else None),
                fs = (if is_vertex_postfix postfix then None else Some shader)\<rparr>"
  using assms by (simp add: assemble_def)

lemma createPasses_empty:
  "createPasses E vp [] shader postfix dirname =
     Inr [\<lparr>TARGET = None, FLOAT = None, WIDTH = None, HEIGHT = None,
           vs = (if is_vertex_postfix postfix then Some shader else None),
           fs = (if is_vertex_postfix postfix then None else Some shader)\<rparr>]"
  by (simp add: createPasses_def promise_all_def push_default_def assemble_def empty_rcPass_def)

text \<open>The definitions a concrete run of \<open>createPasses\<close> unfolds.\<close>

lemmas createPasses_eval =
  createPasses_def promise_all_def push_default_def assemble_def load_vs_def load_fs_def
  env0_def env1_def Let_def
  empty_rcPass_def vs_only_def fs_only_def vs_and_fs_def pass0_def
  is_vertex_postfix_def is_fragment_postfix_def enumerate_simps

text \<open>
  Claim C3. For a list of \<open>N\<close> pass specifications, \<open>createPasses\<close> returns exactly
  \<open>max N 1\<close> passes, and the pass at index \<open>i\<close> is the one assembled from the
  specification at index \<open>i\<close> (for the empty list: from the pushed \<open>{}\<close>). The promise
  is resolved with the list \<open>passes\<close> exactly when \<open>passes\<close> has that length and holds,
  at every index, the result of that index's task; so it is resolved whenever every
  task is.
\<close>

theorem createPasses_count_order:
  "createPasses E vp rcPasses shader postfix dirname = Inr passes \<longleftrightarrow>
     length passes = max (length rcPasses) 1 \<and>
     (\<forall>i < max (length rcPasses) 1.
        assemble E vp shader postfix dirname (max (length rcPasses) 1 - 1)
          (push_default rcPasses ! i) i = Inr (passes ! i))"
  by (simp add: createPasses_Inr_iff length_push_default)

theorem createPasses_count_order_witness:
  "createPasses env0 ''gv'' [vs_only, empty_rcPass] ''void main(){}'' ''.frag'' ''/d''
     = Inr [pass0\<lparr>vs := Some ''VS_TEXT''\<rparr>, pass0\<lparr>fs := Some ''void main(){}''\<rparr>]
   \<and> length [pass0\<lparr>vs := Some ''VS_TEXT''\<rparr>, pass0\<lparr>fs := Some ''void main(){}''\<rparr>]
       = max (length [vs_only, empty_rcPass]) 1
   \<and> assemble env0 ''gv'' ''void main(){}'' ''.frag'' ''/d'' 1 (push_default [vs_only, empty_rcPass] ! 1) 1
       = Inr ([pass0\<lparr>vs := Some ''VS_TEXT''\<rparr>, pass0\<lparr>fs := Some ''void main(){}''\<rparr>] ! 1)
   \<and> createPasses env0 ''gv'' [] ''void main(){}'' ''.frag'' ''/d''
     = Inr [pass0\<lparr>fs := Some ''void main(){}''\<rparr>]"
proof -
  have run: "createPasses env0 ''gv'' [vs_only, empty_rcPass] ''void main(){}'' ''.frag'' ''/d''
     = Inr [pass0\<lparr>vs := Some ''VS_TEXT''\<rparr>, pass0\<lparr>fs := Some ''void main(){}''\<rparr>]"
    by (simp add: createPasses_eval)
  have run0: "createPasses env0 ''gv'' [] ''void main(){}'' ''.frag'' ''/d''
     = Inr [pass0\<lparr>fs := Some ''void main(){}''\<rparr>]"
    by (simp add: createPasses_eval)
  from createPasses_count_order [THEN iffD1, OF run] run run0 show ?thesis
    by simp
qed


text \<open>
  A task that resolves puts its pass at its index of the list \<open>createPasses\<close> resolves
  with, and \<open>createPasses\<close> does resolve when the other tasks resolve too.
\<close>

lemma createPasses_task:
  assumes "createPasses E vp rcPasses shader postfix dirname = Inr passes"
    and "i < length (push_default rcPasses)"
  shows "assemble E vp shader postfix dirname (length (push_default rcPasses) - 1)
           (push_default rcPasses ! i) i = Inr (passes ! i)"
  using assms unfolding createPasses_Inr_iff by simp

lemma createPasses_resolves:
  assumes "\<forall>j < length (push_default rcPasses).
             \<not> isl (assemble E vp shader postfix dirname (length (push_default rcPasses) - 1)
                      (push_default rcPasses ! j) j)"
  shows "\<exists>passes. createPasses E vp rcPasses shader postfix dirname = Inr passes"
proof -
  let ?task = "\<lambda>j. assemble E vp shader postfix dirname (length (push_default rcPasses) - 1)
                      (push_default rcPasses ! j) j"
  let ?passes = "map (\<lambda>j. projr (?task j)) [0 ..< length (push_default rcPasses)]"
  have "createPasses E vp rcPasses shader postfix dirname = Inr ?passes"
    unfolding createPasses_Inr_iff using assms by (auto simp: isl_def dest: sum.collapse(2))
  then show ?thesis ..
qed

lemma task_in_createPasses:
  assumes "i < length (push_default rcPasses)"
    and "assemble E vp shader postfix dirname (length (push_default rcPasses) - 1)
           (push_default rcPasses ! i) i = Inr expected"
  shows "((\<forall>j < length (push_default rcPasses). j \<noteq> i \<longrightarrow>
             \<not> isl (assemble E vp shader postfix dirname (length (push_default rcPasses) - 1)
                      (push_default rcPasses ! j) j))
          \<longrightarrow> (\<exists>passes. createPasses E vp rcPasses shader postfix dirname = Inr passes
                        \<and> passes ! i = expected))
       \<and> (createPasses E vp rcPasses shader postfix dirname = Inr passes
          \<longrightarrow> passes ! i = expected)"
proof (intro conjI impI)
  assume "createPasses E vp rcPasses shader postfix dirname = Inr passes"
  from createPasses_task [OF this assms(1)] assms(2) show "passes ! i = expected"
    by simp
next
  assume others: "\<forall>j < length (push_default rcPasses). j \<noteq> i \<longrightarrow>
             \<not> isl (assemble E vp shader postfix dirname (length (push_default rcPasses) - 1)
                      (push_default rcPasses ! j) j)"
  have "\<forall>j < length (push_default rcPasses).
             \<not> isl (assemble E vp shader postfix dirname (length (push_default rcPasses) - 1)
                      (push_default rcPasses ! j) j)"
    using others assms(2) by (metis sum.disc(2))
  from createPasses_resolves [OF this] obtain passes
    where run: "createPasses E vp rcPasses shader postfix dirname = Inr passes" ..
  from createPasses_task [OF run assms(1)] assms(2) have "passes ! i = expected"
    by simp
  with run show "\<exists>passes. createPasses E vp rcPasses shader postfix dirname = Inr passes
                        \<and> passes ! i = expected"
    by blast
qed

text \<open>What a task resolves with when the files its specification names load.\<close>

lemma assemble_vs_only:
  assumes "rcPass.vs r = Some file" and "file \<noteq> []" and "\<not> truthy_str (rcPass.fs r)"
    and "loadFile E vp (path_resolve E dirname file) = Inr text"
  shows "assemble E vp shader postfix dirname lastPass r i =
           Inr \<lparr>TARGET = rcPass.TARGET r, FLOAT = rcPass.FLOAT r, WIDTH = rcPass.WIDTH r,
                HEIGHT = rcPass.HEIGHT r, vs = Some text,
                fs = (if i = lastPass \<and> (postfix = ''.frag'' \<or> postfix = ''.fs'')
                      then Some shader else None)\<rparr>"
  using assms
  by (cases "rcPass.fs r")
     (simp_all add: assemble_def load_vs_def load_fs_def is_fragment_postfix_def Let_def)

lemma assemble_fs_only:
  assumes "rcPass.fs r = Some file" and "file \<noteq> []" and "\<not> truthy_str (rcPass.vs r)"
    and "loadFile E vp (path_resolve E dirname file) = Inr text"
  shows "assemble E vp shader postfix dirname lastPass r i =
           Inr \<lparr>TARGET = rcPass.TARGET r, FLOAT = rcPass.FLOAT r, WIDTH = rcPass.WIDTH r,
                HEIGHT = rcPass.HEIGHT r,
                vs = (if i = lastPass \<and> (postfix = ''.vert'' \<or> postfix = ''.vs'')
                      then Some shader else None),
                fs = Some text\<rparr>"
  using assms
  by (cases "rcPass.vs r")
     (simp_all add: assemble_def load_vs_def load_fs_def is_vertex_postfix_def Let_def)

lemma assemble_both:
  assumes "rcPass.vs r = Some vfile" and "vfile \<noteq> []"
    and "rcPass.fs r = Some ffile" and "ffile \<noteq> []"
    and "loadFile E vp (path_resolve E dirname vfile) = Inr vtext"
    and "loadFile E vp (path_resolve E dirname ffile) = Inr ftext"
  shows "assemble E vp shader postfix dirname lastPass r i =
           Inr \<lparr>TARGET = rcPass.TARGET r, FLOAT = rcPass.FLOAT r, WIDTH = rcPass.WIDTH r,
                HEIGHT = rcPass.HEIGHT r,
                vs = (if i = lastPass \<and> (postfix = ''.vert'' \<or> postfix = ''.vs'')
                      then Some shader else Some vtext),
                fs = Some ftext\<rparr>"
  using assms
  by (auto simp: assemble_def load_vs_def load_fs_def is_vertex_postfix_def
        is_fragment_postfix_def Let_def)

text \<open>
  Claim C4. The task of a specification with neither \<open>vs\<close> nor \<open>fs\<close> (including the
  \<open>{}\<close> pushed onto an empty list) loads nothing and always resolves, with a pass that
  has the edited text on one side only: on \<open>vs\<close> when the suffix is \<open>.vert\<close> or \<open>.vs\<close>,
  on \<open>fs\<close> for every other suffix, so for \<open>.glsl\<close>, \<open>.frag\<close> and \<open>.fs\<close>; the other side
  stays unset. When the other tasks resolve, \<open>createPasses\<close> resolves with a list that
  has this pass at the specification's index, and whatever list \<open>createPasses\<close>
  resolves with has it there.
\<close>

theorem neither_side_set:
  assumes "i < length (push_default rcPasses)"
    and "\<not> truthy_str (rcPass.vs (push_default rcPasses ! i))"
    and "\<not> truthy_str (rcPass.fs (push_default rcPasses ! i))"
    and "expected =
           \<lparr>TARGET = rcPass.TARGET (push_default rcPasses ! i),
            FLOAT = rcPass.FLOAT (push_default rcPasses ! i),
            WIDTH = rcPass.WIDTH (push_default rcPasses ! i),
            HEIGHT = rcPass.HEIGHT (push_default rcPasses ! i),
            vs = (if postfix = ''.vert'' \<or> postfix = ''.vs'' then Some shader else None),
            fs = (if postfix = ''.vert'' \<or> postfix = ''.vs'' then None else Some shader)\<rparr>"
  shows "assemble E vp shader postfix dirname (length (push_default rcPasses) - 1)
           (push_default rcPasses ! i) i = Inr expected
       \<and> ((\<forall>j < length (push_default rcPasses). j \<noteq> i \<longrightarrow>
             \<not> isl (assemble E vp shader postfix dirname (length (push_default rcPasses) - 1)
                      (push_default rcPasses ! j) j))
          \<longrightarrow> (\<exists>passes. createPasses E vp rcPasses shader postfix dirname = Inr passes
                        \<and> passes ! i = expected))
       \<and> (createPasses E vp rcPasses shader postfix dirname = Inr passes
          \<longrightarrow> passes ! i = expected)"
proof -
  have task: "assemble E vp shader postfix dirname (length (push_default rcPasses) - 1)
           (push_default rcPasses ! i) i = Inr expected"
    using assms(2,3,4) by (simp add: assemble_neither is_vertex_postfix_def)
  from task task_in_createPasses [OF assms(1) task, of passes] show ?thesis
    by blast
qed

theorem neither_side_set_witness:
  "assemble env0 ''gv'' ''void main(){}'' ''.frag'' ''/d'' 1 empty_rcPass 1
     = Inr (pass0\<lparr>fs := Some ''void main(){}''\<rparr>)
   \<and> createPasses env0 ''gv'' [vs_only, empty_rcPass] ''void main(){}'' ''.frag'' ''/d''
     = Inr [pass0\<lparr>vs := Some ''VS_TEXT''\<rparr>, pass0\<lparr>fs := Some ''void main(){}''\<rparr>]
   \<and> createPasses env0 ''gv'' [empty_rcPass] ''void main(){}'' ''.frag'' ''/d''
     = Inr [pass0\<lparr>fs := Some ''void main(){}''\<rparr>]
   \<and> createPasses env0 ''gv'' [] ''void main(){}'' ''.vs'' ''/d''
     = Inr [pass0\<lparr>vs := Some ''void main(){}''\<rparr>]"
proof -
  have none: "\<not> truthy_str (rcPass.vs empty_rcPass)" "\<not> truthy_str (rcPass.fs empty_rcPass)"
    by (simp_all add: empty_rcPass_def)
  have run1: "createPasses env0 ''gv'' [vs_only, empty_rcPass] ''void main(){}'' ''.frag'' ''/d''
     = Inr [pass0\<lparr>vs := Some ''VS_TEXT''\<rparr>, pass0\<lparr>fs := Some ''void main(){}''\<rparr>]"
    by (simp add: createPasses_eval)
  have a: "assemble env0 ''gv'' ''void main(){}'' ''.frag'' ''/d'' 1 empty_rcPass 1
       = Inr (pass0\<lparr>fs := Some ''void main(){}''\<rparr>)
     \<and> [pass0\<lparr>vs := Some ''VS_TEXT''\<rparr>, pass0\<lparr>fs := Some ''void main(){}''\<rparr>] ! 1
       = pass0\<lparr>fs := Some ''void main(){}''\<rparr>"
    using neither_side_set [where rcPasses = "[vs_only, empty_rcPass]" and i = 1 and E = env0
        and vp = "''gv''" and shader = "''void main(){}''" and postfix = "''.frag''"
        and dirname = "''/d''"
        and passes = "[pass0\<lparr>vs := Some ''VS_TEXT''\<rparr>, pass0\<lparr>fs := Some ''void main(){}''\<rparr>]",
        OF _ _ _ refl] none run1
    by (simp add: push_default_def empty_rcPass_def pass0_def)
  have b: "\<exists>passes. createPasses env0 ''gv'' [empty_rcPass] ''void main(){}'' ''.frag'' ''/d''
             = Inr passes \<and> passes ! 0 = pass0\<lparr>fs := Some ''void main(){}''\<rparr>"
    using neither_side_set [where rcPasses = "[empty_rcPass]" and i = 0 and E = env0
        and vp = "''gv''" and shader = "''void main(){}''" and postfix = "''.frag''"
        and dirname = "''/d''", OF _ _ _ refl] none
    by (simp add: push_default_def empty_rcPass_def pass0_def)
  have c: "\<exists>passes. createPasses env0 ''gv'' [] ''void main(){}'' ''.vs'' ''/d''
             = Inr passes \<and> passes ! 0 = pass0\<lparr>vs := Some ''void main(){}''\<rparr>"
    using neither_side_set [where rcPasses = "[]" and i = 0 and E = env0
        and vp = "''gv''" and shader = "''void main(){}''" and postfix = "''.vs''"
        and dirname = "''/d''", OF _ _ _ refl] none
    by (simp add: push_default_def empty_rcPass_def pass0_def)
  have len: "createPasses env0 ''gv'' rcPasses ''void main(){}'' postfix ''/d'' = Inr passes
      \<Longrightarrow> length passes = length (push_default rcPasses)" for rcPasses postfix passes
    by (simp add: createPasses_Inr_iff)
  from b len [of "[empty_rcPass]" "''.frag''"]
  have b': "createPasses env0 ''gv'' [empty_rcPass] ''void main(){}'' ''.frag'' ''/d''
     = Inr [pass0\<lparr>fs := Some ''void main(){}''\<rparr>]"
    by (auto simp: push_default_def length_Suc_conv)
  from c len [of "[]" "''.vs''"]
  have c': "createPasses env0 ''gv'' [] ''void main(){}'' ''.vs'' ''/d''
     = Inr [pass0\<lparr>vs := Some ''void main(){}''\<rparr>]"
    by (auto simp: push_default_def length_Suc_conv)
  from a run1 b' c' show ?thesis by simp
qed

text \<open>
  Claim C5. Let a specification set one side only, and let the file it names load.
  Its task resolves with a pass that has the loaded text on that side. The other side
  is the edited text if this is the last specification and the suffix is of the other
  kind (\<open>.frag\<close> or \<open>.fs\<close> for a specification that sets \<open>vs\<close>, \<open>.vert\<close> or \<open>.vs\<close> for
  one that sets \<open>fs\<close>); otherwise, and so for every specification that is not the
  last, it stays unset. When the other tasks resolve, \<open>createPasses\<close> resolves with a
  list that has this pass at the specification's index, and whatever list
  \<open>createPasses\<close> resolves with has it there.
\<close>

theorem one_side_set:
  assumes "i < length rcPasses"
    and "file \<noteq> []"
    and "loadFile E vp (path_resolve E dirname file) = Inr text"
    and "(rcPass.vs (rcPasses ! i) = Some file \<and> \<not> truthy_str (rcPass.fs (rcPasses ! i))
          \<and> expected =
              \<lparr>TARGET = rcPass.TARGET (rcPasses ! i), FLOAT = rcPass.FLOAT (rcPasses ! i),
               WIDTH = rcPass.WIDTH (rcPasses ! i), HEIGHT = rcPass.HEIGHT (rcPasses ! i),
               vs = Some text,
               fs = (if i = length rcPasses - 1 \<and> (postfix = ''.frag'' \<or> postfix = ''.fs'')
                     then Some shader else None)\<rparr>)
       \<or> (rcPass.fs (rcPasses ! i) = Some file \<and> \<not> truthy_str (rcPass.vs (rcPasses ! i))
          \<and> expected =
              \<lparr>TARGET = rcPass.TARGET (rcPasses ! i), FLOAT = rcPass.FLOAT (rcPasses ! i),
               WIDTH = rcPass.WIDTH (rcPasses ! i), HEIGHT = rcPass.HEIGHT (rcPasses ! i),
               vs = (if i = length rcPasses - 1 \<and> (postfix = ''.vert'' \<or> postfix = ''.vs'')
                     then Some shader else None),
               fs = Some text\<rparr>)"
  shows "assemble E vp shader postfix dirname (length rcPasses - 1) (rcPasses ! i) i
           = Inr expected
       \<and> ((\<forall>j < length rcPasses. j \<noteq> i \<longrightarrow>
             \<not> isl (assemble E vp shader postfix dirname (length rcPasses - 1) (rcPasses ! j) j))
          \<longrightarrow> (\<exists>passes. createPasses E vp rcPasses shader postfix dirname = Inr passes
                        \<and> passes ! i = expected))
       \<and> (createPasses E vp rcPasses shader postfix dirname = Inr passes
          \<longrightarrow> passes ! i = expected)"
proof -
  from assms(1) have ne: "push_default rcPasses = rcPasses"
    by (cases rcPasses) (simp_all add: push_default_def)
  have task: "assemble E vp shader postfix dirname (length rcPasses - 1) (rcPasses ! i) i
           = Inr expected"
    using assms(4) assemble_vs_only [OF _ assms(2) _ assms(3)]
      assemble_fs_only [OF _ assms(2) _ assms(3)]
    by auto
  from task task_in_createPasses [of i rcPasses E vp shader postfix dirname expected passes]
    assms(1) show ?thesis
    unfolding ne by blast
qed

theorem one_side_set_witness:
  "assemble env0 ''gv'' ''edited'' ''.frag'' ''/d'' 0 vs_only 0
     = Inr (pass0\<lparr>vs := Some ''VS_TEXT'', fs := Some ''edited''\<rparr>)
   \<and> createPasses env0 ''gv'' [vs_only] ''edited'' ''.frag'' ''/d''
     = Inr [pass0\<lparr>vs := Some ''VS_TEXT'', fs := Some ''edited''\<rparr>]
   \<and> createPasses env0 ''gv'' [vs_only, vs_only] ''edited'' ''.fs'' ''/d''
     = Inr [pass0\<lparr>vs := Some ''VS_TEXT''\<rparr>, pass0\<lparr>vs := Some ''VS_TEXT'', fs := Some ''edited''\<rparr>]
   \<and> createPasses env0 ''gv'' [fs_only, fs_only] ''edited'' ''.vert'' ''/d''
     = Inr [pass0\<lparr>fs := Some ''FS_TEXT''\<rparr>, pass0\<lparr>vs := Some ''edited'', fs := Some ''FS_TEXT''\<rparr>]"
proof -
  have load: "loadFile env0 ''gv'' (path_resolve env0 ''/d'' ''a.vert'') = Inr ''VS_TEXT''"
    "loadFile env0 ''gv'' (path_resolve env0 ''/d'' ''b.frag'') = Inr ''FS_TEXT''"
    by (simp_all add: env0_def)
  have ne: "''a.vert'' \<noteq> []" "''b.frag'' \<noteq> []"
    by simp_all
  have v: "rcPass.vs vs_only = Some ''a.vert''" "\<not> truthy_str (rcPass.fs vs_only)"
    and f: "rcPass.fs fs_only = Some ''b.frag''" "\<not> truthy_str (rcPass.vs fs_only)"
    by (simp_all add: vs_only_def fs_only_def empty_rcPass_def)
  have run1: "createPasses env0 ''gv'' [vs_only] ''edited'' ''.frag'' ''/d''
     = Inr [pass0\<lparr>vs := Some ''VS_TEXT'', fs := Some ''edited''\<rparr>]"
    by (simp add: createPasses_eval vs_only_def empty_rcPass_def pass0_def)
  have run2: "createPasses env0 ''gv'' [vs_only, vs_only] ''edited'' ''.fs'' ''/d''
     = Inr [pass0\<lparr>vs := Some ''VS_TEXT''\<rparr>, pass0\<lparr>vs := Some ''VS_TEXT'', fs := Some ''edited''\<rparr>]"
    by (simp add: createPasses_eval vs_only_def empty_rcPass_def pass0_def)
  have run3: "createPasses env0 ''gv'' [fs_only, fs_only] ''edited'' ''.vert'' ''/d''
     = Inr [pass0\<lparr>fs := Some ''FS_TEXT''\<rparr>, pass0\<lparr>vs := Some ''edited'', fs := Some ''FS_TEXT''\<rparr>]"
    by (simp add: createPasses_eval fs_only_def empty_rcPass_def pass0_def)
  have a: "assemble env0 ''gv'' ''edited'' ''.frag'' ''/d'' 0 vs_only 0
     = Inr (pass0\<lparr>vs := Some ''VS_TEXT'', fs := Some ''edited''\<rparr>)"
    using one_side_set [where rcPasses = "[vs_only]" and i = 0 and postfix = "''.frag''"
        and shader = "''edited''"
        and expected = "pass0\<lparr>vs := Some ''VS_TEXT'', fs := Some ''edited''\<rparr>",
        OF _ ne(1) load(1)] v
    by (simp add: vs_only_def empty_rcPass_def pass0_def)
  have b: "[pass0\<lparr>vs := Some ''VS_TEXT''\<rparr>, pass0\<lparr>vs := Some ''VS_TEXT'', fs := Some ''edited''\<rparr>] ! 0
       = pass0\<lparr>vs := Some ''VS_TEXT''\<rparr>"
    using one_side_set [where rcPasses = "[vs_only, vs_only]" and i = 0 and postfix = "''.fs''"
        and shader = "''edited''" and expected = "pass0\<lparr>vs := Some ''VS_TEXT''\<rparr>"
        and passes = "[pass0\<lparr>vs := Some ''VS_TEXT''\<rparr>,
                       pass0\<lparr>vs := Some ''VS_TEXT'', fs := Some ''edited''\<rparr>]",
        OF _ ne(1) load(1)] v run2
    by (simp add: vs_only_def empty_rcPass_def pass0_def)
  have c: "[pass0\<lparr>fs := Some ''FS_TEXT''\<rparr>, pass0\<lparr>vs := Some ''edited'', fs := Some ''FS_TEXT''\<rparr>] ! 1
       = pass0\<lparr>vs := Some ''edited'', fs := Some ''FS_TEXT''\<rparr>"
    using one_side_set [where rcPasses = "[fs_only, fs_only]" and i = 1 and postfix = "''.vert''"
        and shader = "''edited''"
        and expected = "pass0\<lparr>vs := Some ''edited'', fs := Some ''FS_TEXT''\<rparr>"
        and passes = "[pass0\<lparr>fs := Some ''FS_TEXT''\<rparr>,
                       pass0\<lparr>vs := Some ''edited'', fs := Some ''FS_TEXT''\<rparr>]",
        OF _ ne(2) load(2)] f run3
    by (simp add: fs_only_def empty_rcPass_def pass0_def)
  from a b c run1 run2 run3 show ?thesis by simp
qed

text \<open>
  Claim C10. Let the last specification set both \<open>vs\<close> and \<open>fs\<close>, and let both files
  load. Its task resolves with a pass whose \<open>fs\<close> is always the loaded \<open>fs\<close> file (for
  \<open>.frag\<close> and \<open>.fs\<close> the edited text written by the \<open>vs\<close> block is overwritten), and
  whose \<open>vs\<close> is the edited text for the suffixes \<open>.vert\<close> and \<open>.vs\<close> (the loaded \<open>vs\<close>
  file is overwritten by the \<open>fs\<close> block) and the loaded \<open>vs\<close> file otherwise. When
  the tasks before it resolve, \<open>createPasses\<close> resolves with a list that has this pass
  last, and whatever list \<open>createPasses\<close> resolves with has it last.
\<close>

theorem both_sides_set:
  assumes "rcPasses \<noteq> []"
    and "rcPass.vs (last rcPasses) = Some vfile" and "vfile \<noteq> []"
    and "rcPass.fs (last rcPasses) = Some ffile" and "ffile \<noteq> []"
    and "loadFile E vp (path_resolve E dirname vfile) = Inr vtext"
    and "loadFile E vp (path_resolve E dirname ffile) = Inr ftext"
    and "expected =
           \<lparr>TARGET = rcPass.TARGET (last rcPasses), FLOAT = rcPass.FLOAT (last rcPasses),
            WIDTH = rcPass.WIDTH (last rcPasses), HEIGHT = rcPass.HEIGHT (last rcPasses),
            vs = (if postfix = ''.vert'' \<or> postfix = ''.vs'' then Some shader else Some vtext),
            fs = Some ftext\<rparr>"
  shows "assemble E vp shader postfix dirname (length rcPasses - 1) (last rcPasses)
           (length rcPasses - 1) = Inr expected
       \<and> ((\<forall>j < length rcPasses - 1.
             \<not> isl (assemble E vp shader postfix dirname (length rcPasses - 1) (rcPasses ! j) j))
          \<longrightarrow> (\<exists>passes. createPasses E vp rcPasses shader postfix dirname = Inr passes
                        \<and> last passes = expected))
       \<and> (createPasses E vp rcPasses shader postfix dirname = Inr passes
          \<longrightarrow> last passes = expected)"
proof -
  from assms(1) have ne: "push_default rcPasses = rcPasses"
    by (simp add: push_default_def)
  from assms(1) have i: "length rcPasses - 1 < length rcPasses"
    by (cases rcPasses) simp_all
  have lr: "last rcPasses = rcPasses ! (length rcPasses - 1)"
    using assms(1) by (simp add: last_conv_nth)
  have task: "assemble E vp shader postfix dirname (length rcPasses - 1) (last rcPasses)
           (length rcPasses - 1) = Inr expected"
    using assemble_both [OF assms(2-7), of shader postfix "length rcPasses - 1"
        "length rcPasses - 1"] assms(8)
    by simp
  have last: "last passes' = passes' ! (length rcPasses - 1)"
    if "createPasses E vp rcPasses shader postfix dirname = Inr passes'" for passes'
  proof -
    from that have len: "length passes' = length rcPasses"
      by (simp add: createPasses_Inr_iff ne)
    with assms(1) have "passes' \<noteq> []"
      by auto
    then show ?thesis
      by (simp add: last_conv_nth len)
  qed
  note tic = task_in_createPasses [of "length rcPasses - 1" rcPasses E vp shader postfix dirname
      expected passes, unfolded ne, OF i task [unfolded lr]]
  have others: "(\<forall>j < length rcPasses - 1.
             \<not> isl (assemble E vp shader postfix dirname (length rcPasses - 1) (rcPasses ! j) j))
          \<longrightarrow> (\<exists>passes. createPasses E vp rcPasses shader postfix dirname = Inr passes
                        \<and> last passes = expected)"
  proof
    assume before: "\<forall>j < length rcPasses - 1.
             \<not> isl (assemble E vp shader postfix dirname (length rcPasses - 1) (rcPasses ! j) j)"
    then have "\<forall>j < length rcPasses. j \<noteq> length rcPasses - 1 \<longrightarrow>
             \<not> isl (assemble E vp shader postfix dirname (length rcPasses - 1) (rcPasses ! j) j)"
      by auto
    with tic obtain passes' where
      "createPasses E vp rcPasses shader postfix dirname = Inr passes'"
      "passes' ! (length rcPasses - 1) = expected"
      by blast
    with last [of passes'] show "\<exists>passes. createPasses E vp rcPasses shader postfix dirname = Inr passes
                        \<and> last passes = expected"
      by auto
  qed
  have any: "createPasses E vp rcPasses shader postfix dirname = Inr passes
          \<longrightarrow> last passes = expected"
    using tic last [of passes] by auto
  from task others any show ?thesis by blast
qed

theorem both_sides_set_witness:
  "assemble env0 ''gv'' ''edited'' ''.vert'' ''/d'' 0 vs_and_fs 0
     = Inr (pass0\<lparr>vs := Some ''edited'', fs := Some ''FS_TEXT''\<rparr>)
   \<and> createPasses env0 ''gv'' [vs_and_fs] ''edited'' ''.vert'' ''/d''
     = Inr [pass0\<lparr>vs := Some ''edited'', fs := Some ''FS_TEXT''\<rparr>]
   \<and> assemble env0 ''gv'' ''edited'' ''.frag'' ''/d'' 1 vs_and_fs 1
     = Inr (pass0\<lparr>vs := Some ''VS_TEXT'', fs := Some ''FS_TEXT''\<rparr>)
   \<and> createPasses env0 ''gv'' [empty_rcPass, vs_and_fs] ''edited'' ''.frag'' ''/d''
     = Inr [pass0\<lparr>fs := Some ''edited''\<rparr>, pass0\<lparr>vs := Some ''VS_TEXT'', fs := Some ''FS_TEXT''\<rparr>]"
proof -
  have load: "loadFile env0 ''gv'' (path_resolve env0 ''/d'' ''a.vert'') = Inr ''VS_TEXT''"
    "loadFile env0 ''gv'' (path_resolve env0 ''/d'' ''b.frag'') = Inr ''FS_TEXT''"
    by (simp_all add: env0_def)
  have ne: "''a.vert'' \<noteq> []" "''b.frag'' \<noteq> []"
    by simp_all
  have sides: "rcPass.vs (last rcs) = Some ''a.vert''" "rcPass.fs (last rcs) = Some ''b.frag''"
    if "last rcs = vs_and_fs" for rcs
    using that by (simp_all add: vs_and_fs_def empty_rcPass_def)
  have l1: "last [vs_and_fs] = vs_and_fs" and l2: "last [empty_rcPass, vs_and_fs] = vs_and_fs"
    by simp_all
  have run1: "createPasses env0 ''gv'' [vs_and_fs] ''edited'' ''.vert'' ''/d''
     = Inr [pass0\<lparr>vs := Some ''edited'', fs := Some ''FS_TEXT''\<rparr>]"
    by (simp add: createPasses_eval vs_and_fs_def empty_rcPass_def pass0_def)
  have run2: "createPasses env0 ''gv'' [empty_rcPass, vs_and_fs] ''edited'' ''.frag'' ''/d''
     = Inr [pass0\<lparr>fs := Some ''edited''\<rparr>, pass0\<lparr>vs := Some ''VS_TEXT'', fs := Some ''FS_TEXT''\<rparr>]"
    by (simp add: createPasses_eval vs_and_fs_def empty_rcPass_def pass0_def)
  have a: "assemble env0 ''gv'' ''edited'' ''.vert'' ''/d'' 0 vs_and_fs 0
     = Inr (pass0\<lparr>vs := Some ''edited'', fs := Some ''FS_TEXT''\<rparr>)"
    using both_sides_set [where rcPasses = "[vs_and_fs]" and postfix = "''.vert''"
        and shader = "''edited''",
        OF _ sides(1) [OF l1] ne(1) sides(2) [OF l1] ne(2) load refl]
    by (simp add: vs_and_fs_def empty_rcPass_def pass0_def)
  have b: "assemble env0 ''gv'' ''edited'' ''.frag'' ''/d'' 1 vs_and_fs 1
     = Inr (pass0\<lparr>vs := Some ''VS_TEXT'', fs := Some ''FS_TEXT''\<rparr>)"
    using both_sides_set [where rcPasses = "[empty_rcPass, vs_and_fs]" and postfix = "''.frag''"
        and shader = "''edited''",
        OF _ sides(1) [OF l2] ne(1) sides(2) [OF l2] ne(2) load refl]
    by (simp add: vs_and_fs_def empty_rcPass_def pass0_def)
  from a b run1 run2 show ?thesis by simp
qed

section \<open>Properties of loadShaderOfEditor\<close>

text \<open>The promise chain succeeds exactly when each of its steps does.\<close>

lemma build_Inr_iff:
  "build E vp rc isSound filepath postfix dirname shader0 = Inr (shader, passes) \<longleftrightarrow>
     (if Rc.glslify rc then env.glslify E shader0 (path_dirname E filepath) else Inr shader0) = Inr shader
     \<and> (isSound \<or> validator E vp shader postfix = Inr ())
     \<and> createPasses E vp (PASSES rc) shader postfix dirname = Inr passes"
  by (auto simp: build_def split: sum.splits)

lemma build_Inl_if:
  assumes "isl pre
     \<or> (\<not> isSound \<and> isl (validator E vp (projr pre) postfix))
     \<or> isl (createPasses E vp (PASSES rc) (projr pre) postfix dirname)"
    and "pre = (if Rc.glslify rc then env.glslify E shader0 (path_dirname E filepath) else Inr shader0)"
  shows "isl (build E vp rc isSound filepath postfix dirname shader0)"
  using assms(1) unfolding build_def assms(2) [symmetric]
  by (cases pre; cases isSound) (auto split: sum.splits)

lemma loadShaderOfEditor_frame:
  "state.glslangValidatorPath (snd (loadShaderOfEditor E editor isSound s)) = state.glslangValidatorPath s
   \<and> player (snd (loadShaderOfEditor E editor isSound s)) = player s
   \<and> isPlaying (snd (loadShaderOfEditor E editor isSound s)) = isPlaying s
   \<and> osc (snd (loadShaderOfEditor E editor isSound s)) = osc s
   \<and> next_id (snd (loadShaderOfEditor E editor isSound s)) = next_id s"
  by (simp add: loadShaderOfEditor_def emit_def Let_def split: option.splits sum.splits prod.splits)

text \<open>The definitions a concrete run of the pipeline unfolds.\<close>

lemmas pipeline_eval =
  loadShaderOfEditor_def build_def emit_def match_postfix_def ends_with_def headComment_def
  rc0_def editor0_def state0_def createPasses_eval Let_def

text \<open>
  Claim C1. If a step of the build fails, that is the path has none of the five
  extensions, or \<open>glslify\<close> throws, or (in visual mode) the validator rejects the
  preprocessed text, or \<open>createPasses\<close> is rejected because a file does not load, then
  \<open>lastShader\<close> and \<open>lastSoundShader\<close> are after the call what they were before it.
  Read the other way round: a call that changes one of them has passed every step.
\<close>

theorem failed_build_keeps_shaders:
  assumes "getPath ed = Some filepath"
    and "rc = (if isSound
               then createSoundRc E (setSoundSettingsByString E (config s) filepath (headComment (getText ed)))
               else createRc E (setFileSettingsByString E (config s) filepath (headComment (getText ed))))"
    and "preprocessed = (if Rc.glslify rc then env.glslify E (getText ed) (path_dirname E filepath)
                         else Inr (getText ed))"
    and "match_postfix filepath = None
         \<or> isl preprocessed
         \<or> (\<not> isSound \<and> isl (validator E (state.glslangValidatorPath s) (projr preprocessed)
                                 (the (match_postfix filepath))))
         \<or> isl (createPasses E (state.glslangValidatorPath s) (PASSES rc) (projr preprocessed)
                  (the (match_postfix filepath)) (path_dirname E filepath))"
  shows "lastShader (snd (loadShaderOfEditor E (Some ed) isSound s)) = lastShader s
       \<and> lastSoundShader (snd (loadShaderOfEditor E (Some ed) isSound s)) = lastSoundShader s"
proof (cases "match_postfix filepath")
  case None
  with assms(1) show ?thesis
    by (simp add: loadShaderOfEditor_def emit_def)
next
  case (Some postfix)
  with assms(4) have "isl preprocessed
     \<or> (\<not> isSound \<and> isl (validator E (state.glslangValidatorPath s) (projr preprocessed) postfix))
     \<or> isl (createPasses E (state.glslangValidatorPath s) (PASSES rc) (projr preprocessed) postfix
              (path_dirname E filepath))"
    by simp
  from build_Inl_if [OF this assms(3)]
  obtain e where "build E (state.glslangValidatorPath s) rc isSound filepath postfix
                    (path_dirname E filepath) (getText ed) = Inl e"
    by (auto simp: isl_def)
  with assms(1,2) Some show ?thesis
    by (cases isSound) (simp_all add: loadShaderOfEditor_def emit_def Let_def)
qed


theorem failed_build_keeps_shaders_witness:
  "match_postfix ''/d/notes.txt'' = None
   \<and> lastShader (snd (loadShaderOfEditor env0 (Some (editor0 ''/d/notes.txt'' ''x'')) False state0))
       = lastShader state0
   \<and> isl (env.glslify env0 ''/*g*/bad'' ''/d'')
   \<and> lastShader (snd (loadShaderOfEditor env0 (Some (editor0 ''/d/s.frag'' ''/*g*/bad'')) False state0))
       = lastShader state0
   \<and> isl (validator env0 ''glslangValidator'' ''bad'' ''.frag'')
   \<and> lastShader (snd (loadShaderOfEditor env0 (Some (editor0 ''/d/s.frag'' ''bad'')) False state0))
       = lastShader state0
   \<and> isl (createPasses env0 ''glslangValidator'' (PASSES (rc0 (Some ''p''))) ''/*p*/x'' ''.frag'' ''/d'')
   \<and> lastSoundShader (snd (loadShaderOfEditor env0 (Some (editor0 ''/d/s.frag'' ''/*p*/x'')) True state0))
       = lastSoundShader state0"
proof -
  have a: "match_postfix ''/d/notes.txt'' = None"
    by (simp add: match_postfix_def ends_with_def)
  have b: "isl (env.glslify env0 ''/*g*/bad'' ''/d'')"
    by (simp add: env0_def)
  have c: "isl (validator env0 ''glslangValidator'' ''bad'' ''.frag'')"
    by (simp add: env0_def)
  have d: "isl (createPasses env0 ''glslangValidator'' (PASSES (rc0 (Some ''p''))) ''/*p*/x'' ''.frag'' ''/d'')"
    by (simp add: rc0_def createPasses_eval)
  have ra: "lastShader (snd (loadShaderOfEditor env0 (Some (editor0 ''/d/notes.txt'' ''x'')) False state0))
       = lastShader state0
     \<and> lastSoundShader (snd (loadShaderOfEditor env0 (Some (editor0 ''/d/notes.txt'' ''x'')) False state0))
       = lastSoundShader state0"
    by (rule failed_build_keeps_shaders [where filepath = "''/d/notes.txt''", OF _ refl refl])
       (simp_all add: a editor0_def)
  have rb: "lastShader (snd (loadShaderOfEditor env0 (Some (editor0 ''/d/s.frag'' ''/*g*/bad'')) False state0))
       = lastShader state0
     \<and> lastSoundShader (snd (loadShaderOfEditor env0 (Some (editor0 ''/d/s.frag'' ''/*g*/bad'')) False state0))
       = lastSoundShader state0"
    by (rule failed_build_keeps_shaders [where filepath = "''/d/s.frag''", OF _ refl refl])
       (simp_all add: editor0_def env0_def rc0_def headComment_def)
  have rc: "lastShader (snd (loadShaderOfEditor env0 (Some (editor0 ''/d/s.frag'' ''bad'')) False state0))
       = lastShader state0
     \<and> lastSoundShader (snd (loadShaderOfEditor env0 (Some (editor0 ''/d/s.frag'' ''bad'')) False state0))
       = lastSoundShader state0"
    by (rule failed_build_keeps_shaders [where filepath = "''/d/s.frag''", OF _ refl refl])
       (simp_all add: editor0_def env0_def rc0_def headComment_def state0_def
          match_postfix_def ends_with_def)
  have rd: "lastShader (snd (loadShaderOfEditor env0 (Some (editor0 ''/d/s.frag'' ''/*p*/x'')) True state0))
       = lastShader state0
     \<and> lastSoundShader (snd (loadShaderOfEditor env0 (Some (editor0 ''/d/s.frag'' ''/*p*/x'')) True state0))
       = lastSoundShader state0"
    by (rule failed_build_keeps_shaders [where filepath = "''/d/s.frag''", OF _ refl refl])
       (simp_all add: pipeline_eval)
  from a b c d ra rb rc rd show ?thesis by simp
qed


text \<open>
  Claim C2 says that pass assembly is run for the visual shader only. The source calls
  \<open>createPasses\<close> in the third \<open>then\<close> step whatever the mode is. Here a sound-mode
  build, whose snapshot asks for a pass with the vertex shader \<open>missing.vert\<close>, ends in
  the \<open>catch\<close> with the error of that file's load; with the file present the same
  build stores the sound shader.
\<close>

theorem sound_build_assembles_passes_counterexample:
  "loadShaderOfEditor env0 (Some (editor0 ''/d/s.frag'' ''/*p*/x'')) True state0
     = (Resolved, state0\<lparr>config := Some ''p'',
                         trace := [ConsoleError (Caught (LoadFileError ''/d/missing.vert''))]\<rparr>)
   \<and> loadShaderOfEditor env1 (Some (editor0 ''/d/s.frag'' ''/*p*/x'')) True state0
     = (Resolved, state0\<lparr>config := Some ''p'', lastSoundShader := ''/*p*/x'',
                         trace := [Playable_loadSoundShader 1 ''/*p*/x'']\<rparr>)"
  by (simp add: pipeline_eval)

text \<open>
  Claim C2, amended. Once preprocessing and (in visual mode) validation have
  succeeded, \<open>createPasses\<close> is run in both modes. A rejection ends the build with a
  diagnostic and nothing stored. On success a visual-mode build stores and dispatches
  the assembled passes; a sound-mode build discards them and stores and dispatches the
  shader text.
\<close>

theorem assembly_runs_in_both_modes:
  assumes "getPath ed = Some filepath"
    and "match_postfix filepath = Some postfix"
    and "cfg = (if isSound
                then setSoundSettingsByString E (config s) filepath (headComment (getText ed))
                else setFileSettingsByString E (config s) filepath (headComment (getText ed)))"
    and "rc = (if isSound then createSoundRc E cfg else createRc E cfg)"
    and "(if Rc.glslify rc then env.glslify E (getText ed) (path_dirname E filepath)
          else Inr (getText ed)) = Inr shader"
    and "isSound \<or> validator E (state.glslangValidatorPath s) shader postfix = Inr ()"
  shows "loadShaderOfEditor E (Some ed) isSound s =
           (case createPasses E (state.glslangValidatorPath s) (PASSES rc) shader postfix
                   (path_dirname E filepath) of
              Inl e \<Rightarrow> (Resolved, s\<lparr>config := cfg, trace := trace s @ [ConsoleError (Caught e)]\<rparr>)
            | Inr passes \<Rightarrow>
                if isSound
                then (Resolved,
                      s\<lparr>config := cfg, lastSoundShader := shader,
                        trace := trace s @ [Playable_loadSoundShader (playable_id (player s)) shader]\<rparr>)
                else (Resolved,
                      s\<lparr>config := cfg, lastShader := passes,
                        trace := trace s @ [Playable_loadShader (playable_id (player s)) passes]\<rparr>))"
  using assms
  by (cases isSound)
     (simp_all add: loadShaderOfEditor_def build_def emit_def Let_def split: sum.splits)

theorem assembly_runs_in_both_modes_witness:
  "loadShaderOfEditor env0 (Some (editor0 ''/d/s.frag'' ''/*p*/x'')) True state0
     = (Resolved, state0\<lparr>config := Some ''p'',
                         trace := [ConsoleError (Caught (LoadFileError ''/d/missing.vert''))]\<rparr>)
   \<and> loadShaderOfEditor env1 (Some (editor0 ''/d/s.frag'' ''/*p*/x'')) True state0
     = (Resolved, state0\<lparr>config := Some ''p'', lastSoundShader := ''/*p*/x'',
                         trace := [Playable_loadSoundShader 1 ''/*p*/x'']\<rparr>)
   \<and> loadShaderOfEditor env1 (Some (editor0 ''/d/s.frag'' ''/*p*/x'')) False state0
     = (Resolved, state0\<lparr>config := Some ''p'',
                         lastShader := [pass0\<lparr>vs := Some ''VS_TEXT'', fs := Some ''/*p*/x''\<rparr>],
                         trace := [Playable_loadShader 1
                                     [pass0\<lparr>vs := Some ''VS_TEXT'', fs := Some ''/*p*/x''\<rparr>]]\<rparr>)"
proof -
  have p: "getPath (editor0 ''/d/s.frag'' ''/*p*/x'') = Some ''/d/s.frag''"
    "match_postfix ''/d/s.frag'' = Some ''.frag''"
    by (simp_all add: editor0_def match_postfix_def ends_with_def)
  have a: "loadShaderOfEditor env0 (Some (editor0 ''/d/s.frag'' ''/*p*/x'')) True state0
     = (Resolved, state0\<lparr>config := Some ''p'',
                         trace := [ConsoleError (Caught (LoadFileError ''/d/missing.vert''))]\<rparr>)"
    using assembly_runs_in_both_modes [where E = env0 and s = state0 and isSound = True
        and shader = "''/*p*/x''", OF p refl refl]
    by (simp add: pipeline_eval)
  have b: "loadShaderOfEditor env1 (Some (editor0 ''/d/s.frag'' ''/*p*/x'')) True state0
     = (Resolved, state0\<lparr>config := Some ''p'', lastSoundShader := ''/*p*/x'',
                         trace := [Playable_loadSoundShader 1 ''/*p*/x'']\<rparr>)"
    using assembly_runs_in_both_modes [where E = env1 and s = state0 and isSound = True
        and shader = "''/*p*/x''", OF p refl refl]
    by (simp add: pipeline_eval)
  have c: "loadShaderOfEditor env1 (Some (editor0 ''/d/s.frag'' ''/*p*/x'')) False state0
     = (Resolved, state0\<lparr>config := Some ''p'',
                         lastShader := [pass0\<lparr>vs := Some ''VS_TEXT'', fs := Some ''/*p*/x''\<rparr>],
                         trace := [Playable_loadShader 1
                                     [pass0\<lparr>vs := Some ''VS_TEXT'', fs := Some ''/*p*/x''\<rparr>]]\<rparr>)"
    using assembly_runs_in_both_modes [where E = env1 and s = state0 and isSound = False
        and shader = "''/*p*/x''", OF p refl refl]
    by (simp add: pipeline_eval)
  from a b c show ?thesis by simp
qed

text \<open>
  Claim C6 says that \<open>loadShaderOfEditor\<close> always returns a promise that resolves. For
  an editor without a path (\<open>getPath()\<close> is \<open>undefined\<close>) the call
  \<open>path.dirname(filepath)\<close> throws before the promise chain and its \<open>catch\<close> exist, and
  before the test \<open>(filepath || '')\<close> that was written for that case.
\<close>

theorem untitled_editor_throws:
  "loadShaderOfEditor E (Some \<lparr>getPath = None, getText = text\<rparr>) isSound s = (Thrown TypeError, s)
   \<and> loadShader E (Some \<lparr>getPath = None, getText = text\<rparr>) s = (Thrown TypeError, s)
   \<and> loadSoundShader E (Some \<lparr>getPath = None, getText = text\<rparr>) s = (Thrown TypeError, s)"
  by (simp add: loadShaderOfEditor_def loadShader_def loadSoundShader_def)

text \<open>
  The rest of that claim holds: without an editor the call is a no-op, an unrecognized
  suffix gives one diagnostic and no other change, an editor with a path always gives a
  resolved promise, and no call gives a rejected one.
\<close>

lemma no_editor_resolves:
  "loadShaderOfEditor E None isSound s = (Resolved, s)"
  by (simp add: loadShaderOfEditor_def)

lemma unrecognized_suffix_resolves:
  assumes "getPath ed = Some filepath" and "match_postfix filepath = None"
  shows "loadShaderOfEditor E (Some ed) isSound s =
           (Resolved, s\<lparr>trace := trace s
              @ [ConsoleError (Message ''The filename for current doesn't seems to be GLSL.'')]\<rparr>)"
  using assms by (simp add: loadShaderOfEditor_def emit_def)

lemma editor_with_path_resolves:
  assumes "getPath ed = Some filepath"
  shows "fst (loadShaderOfEditor E (Some ed) isSound s) = Resolved"
  using assms
  by (simp add: loadShaderOfEditor_def Let_def split: option.splits sum.splits prod.splits)

lemma loadShaderOfEditor_never_rejected:
  "fst (loadShaderOfEditor E editor isSound s) \<noteq> Rejected e"
  by (simp add: loadShaderOfEditor_def Let_def split: option.splits sum.splits prod.splits)

text \<open>
  Claim C9 says that the text stored and dispatched by a sound-mode build is the raw
  editor text. With \<open>rc.glslify\<close> on, the variable \<open>shader\<close> has been reassigned to the
  output of \<open>glslify\<close> before it is stored.
\<close>

theorem sound_shader_is_raw_text_counterexample:
  "loadShaderOfEditor env0 (Some (editor0 ''/d/s.frag'' ''/*g*/x'')) True state0
     = (Resolved, state0\<lparr>config := Some ''g'', lastSoundShader := ''/*g*/x#'',
                         trace := [Playable_loadSoundShader 1 ''/*g*/x#'']\<rparr>)
   \<and> getText (editor0 ''/d/s.frag'' ''/*g*/x'') \<noteq> ''/*g*/x#''"
  by (simp add: pipeline_eval)

text \<open>
  Claim C9, amended. When a sound-mode build dispatches a text to the backend's
  \<open>loadSoundShader\<close>, that same text is stored as \<open>lastSoundShader\<close>; it is the editor
  text as read at the start of the build when the snapshot's \<open>glslify\<close> is off, and the
  output of \<open>glslify\<close> on that text when it is on.
\<close>

theorem sound_shader_is_preprocessed_text:
  assumes "getPath ed = Some filepath"
    and "rc = createSoundRc E (setSoundSettingsByString E (config s) filepath (headComment (getText ed)))"
    and "trace (snd (loadShaderOfEditor E (Some ed) True s))
           = trace s @ [Playable_loadSoundShader i text]"
  shows "lastSoundShader (snd (loadShaderOfEditor E (Some ed) True s)) = text
       \<and> (if Rc.glslify rc
          then env.glslify E (getText ed) (path_dirname E filepath) = Inr text
          else getText ed = text)"
  using assms
  by (auto simp: loadShaderOfEditor_def build_def emit_def Let_def
           split: option.splits sum.splits if_splits)

theorem sound_shader_is_preprocessed_text_witness:
  "lastSoundShader (snd (loadShaderOfEditor env0 (Some (editor0 ''/d/s.frag'' ''/*g*/x'')) True state0))
     = ''/*g*/x#''
   \<and> env.glslify env0 ''/*g*/x'' ''/d'' = Inr ''/*g*/x#''
   \<and> lastSoundShader (snd (loadShaderOfEditor env0 (Some (editor0 ''/d/s.frag'' ''x'')) True state0))
     = ''x''"
proof -
  have a: "trace (snd (loadShaderOfEditor env0 (Some (editor0 ''/d/s.frag'' ''/*g*/x'')) True state0))
             = trace state0 @ [Playable_loadSoundShader 1 ''/*g*/x#'']"
    by (simp add: pipeline_eval)
  have b: "trace (snd (loadShaderOfEditor env0 (Some (editor0 ''/d/s.frag'' ''x'')) True state0))
             = trace state0 @ [Playable_loadSoundShader 1 ''x'']"
    by (simp add: pipeline_eval)
  have p: "getPath (editor0 ''/d/s.frag'' ''/*g*/x'') = Some ''/d/s.frag''"
    "getPath (editor0 ''/d/s.frag'' ''x'') = Some ''/d/s.frag''"
    by (simp_all add: editor0_def)
  show ?thesis
    using sound_shader_is_preprocessed_text [OF p(1) refl a]
      sound_shader_is_preprocessed_text [OF p(2) refl b]
    by (simp add: editor0_def env0_def rc0_def headComment_def state0_def)
qed


section \<open>Properties of onAnyChanges\<close>

text \<open>
  Printing a safe integer and parsing the text gives the integer back, so for such a
  port the test \<open>osc.port !== parseInt(port.toString(), 10)\<close> compares the two ports.
\<close>

lemma of_char_digit_char: "d < 10 \<Longrightarrow> (of_char (digit_char d) :: nat) = 48 + d"
  by (simp add: digit_char_def)

lemma is_digit_digit_char: "d < 10 \<Longrightarrow> is_digit (digit_char d)"
  by (simp add: is_digit_def of_char_digit_char)

lemma nat_digits_all_digits: "list_all is_digit (nat_digits n)"
proof (induction n rule: nat_digits.induct)
  case (1 n)
  show ?case
  proof (cases "n < 10")
    case True
    then show ?thesis
      by (subst nat_digits.simps) (simp add: is_digit_digit_char)
  next
    case False
    with "1" show ?thesis
      by (subst nat_digits.simps) (simp add: is_digit_digit_char)
  qed
qed

lemma nat_digits_nonempty: "nat_digits n \<noteq> []"
  by (subst nat_digits.simps) simp

lemma digits_value_snoc:
  "digits_value (ds @ [c]) = digits_value ds * 10 + ((of_char c :: nat) - 48)"
  by (simp add: digits_value_def)

lemma digits_value_nat_digits: "digits_value (nat_digits n) = n"
proof (induction n rule: nat_digits.induct)
  case (1 n)
  show ?case
  proof (cases "n < 10")
    case True
    then show ?thesis
      by (subst nat_digits.simps) (simp add: digits_value_def of_char_digit_char)
  next
    case False
    with "1" have "digits_value (nat_digits (n div 10)) = n div 10" by simp
    with False show ?thesis
      by (subst nat_digits.simps) (simp add: digits_value_snoc of_char_digit_char)
  qed
qed

lemma hd_nat_digits_digit: "is_digit (hd (nat_digits n))"
  using nat_digits_all_digits [of n] nat_digits_nonempty [of n]
  by (cases "nat_digits n") simp_all

lemma digit_not_space_or_sign:
  "is_digit c \<Longrightarrow> \<not> is_space c \<and> c \<noteq> CHR ''-'' \<and> c \<noteq> CHR ''+''"
  by (auto simp: is_digit_def is_space_def)

lemma parseInt10_nat_digits: "parseInt10 (nat_digits n) = Some (int n)"
proof -
  have hd: "\<not> is_space (hd (nat_digits n))" "hd (nat_digits n) \<noteq> CHR ''-''"
    "hd (nat_digits n) \<noteq> CHR ''+''"
    using digit_not_space_or_sign [OF hd_nat_digits_digit [of n]] by simp_all
  have dw: "dropWhile is_space (nat_digits n) = nat_digits n"
    using hd(1) nat_digits_nonempty [of n] by (cases "nat_digits n") simp_all
  have tw: "takeWhile is_digit (nat_digits n) = nat_digits n"
    using nat_digits_all_digits [of n] by (simp add: takeWhile_eq_all_conv list_all_iff)
  show ?thesis
    by (simp add: parseInt10_def dw tw hd nat_digits_nonempty digits_value_nat_digits)
qed

lemma parseInt10_minus_nat_digits: "parseInt10 (CHR ''-'' # nat_digits n) = Some (- int n)"
proof -
  have sp: "\<not> is_space CHR ''-''"
    by (simp add: is_space_def)
  have tw: "takeWhile is_digit (nat_digits n) = nat_digits n"
    using nat_digits_all_digits [of n] by (simp add: takeWhile_eq_all_conv list_all_iff)
  show ?thesis
    by (simp add: parseInt10_def sp tw nat_digits_nonempty digits_value_nat_digits)
qed

lemma parseInt10_Number_toString:
  "isSafeInteger n \<Longrightarrow> parseInt10 (Number_toString E n) = Some n"
  by (simp add: Number_toString_def parseInt10_nat_digits parseInt10_minus_nat_digits)

text \<open>What each block of \<open>onAnyChanges\<close> adds to the trace and which fields it keeps.\<close>

lemma live_after_filter:
  "foldl live_after L (filter is_osc_event es) = foldl live_after L es"
proof (induction es arbitrary: L)
  case Nil
  show ?case by simp
next
  case (Cons e es)
  then show ?case by (cases e) simp_all
qed

lemma live_oscs_append:
  "live_oscs (es @ es') = foldl live_after (live_oscs es) (filter is_osc_event es')"
  by (simp add: live_oscs_def live_after_filter)

lemma new_events_append: "trace s' = trace s @ es \<Longrightarrow> new_events s s' = es"
  by (simp add: new_events_def)

text \<open>The first block.\<close>

lemma validatorPath_block:
  "trace (onAnyChanges_glslangValidatorPath a s) = trace s
   \<and> osc (onAnyChanges_glslangValidatorPath a s) = osc s
   \<and> player (onAnyChanges_glslangValidatorPath a s) = player s
   \<and> isPlaying (onAnyChanges_glslangValidatorPath a s) = isPlaying s
   \<and> lastShader (onAnyChanges_glslangValidatorPath a s) = lastShader s
   \<and> lastSoundShader (onAnyChanges_glslangValidatorPath a s) = lastSoundShader s
   \<and> config (onAnyChanges_glslangValidatorPath a s) = config s
   \<and> next_id (onAnyChanges_glslangValidatorPath a s) = next_id s"
  by (simp add: onAnyChanges_glslangValidatorPath_def)

text \<open>The second block.\<close>

lemma server_block_frame:
  "osc (onAnyChanges_server E a s) = osc s
   \<and> isPlaying (onAnyChanges_server E a s) = isPlaying s
   \<and> lastShader (onAnyChanges_server E a s) = lastShader s
   \<and> lastSoundShader (onAnyChanges_server E a s) = lastSoundShader s
   \<and> config (onAnyChanges_server E a s) = config s"
  by (simp add: onAnyChanges_server_def emit_def Let_def split: option.splits)

lemma server_block_trace:
  "\<exists>es. trace (onAnyChanges_server E a s) = trace s @ es \<and> filter is_osc_event es = []
        \<and> filter is_playable_event es =
            (case added.server a of
               None \<Rightarrow> []
             | Some srv \<Rightarrow> [Playable_stop (playable_id (player s)),
                            New_Playable (player (onAnyChanges_server E a s))])"
  by (simp add: onAnyChanges_server_def emit_def Let_def split: option.splits)

lemma server_block_player:
  "added.server a = Some srv \<Longrightarrow>
   player (onAnyChanges_server E a s) =
     (if truthy_num srv
      then PlayerServer (next_id s) (the srv) (createRc E (config s)) (isPlaying s)
             (projectPath E (config s)) (lastShader s)
      else Player (next_id s + 1) (next_id s) (createRc E (config s)) (isPlaying s) (lastShader s))"
  by (simp add: onAnyChanges_server_def emit_def Let_def)

text \<open>The third block.\<close>

lemma osc_block_frame:
  "player (onAnyChanges_osc E a s) = player s
   \<and> isPlaying (onAnyChanges_osc E a s) = isPlaying s
   \<and> lastShader (onAnyChanges_osc E a s) = lastShader s
   \<and> lastSoundShader (onAnyChanges_osc E a s) = lastSoundShader s
   \<and> config (onAnyChanges_osc E a s) = config s"
  by (simp add: onAnyChanges_osc_def emit_def Let_def split: option.splits)

lemma osc_block_trace_playable:
  "\<exists>es. trace (onAnyChanges_osc E a s) = trace s @ es \<and> filter is_playable_event es = []"
  by (simp add: onAnyChanges_osc_def emit_def Let_def split: option.splits)


lemma osc_block:
  assumes "added.osc a = Some prt" and "safe_port prt"
  shows "osc (onAnyChanges_osc E a s) =
           (if same_port prt (osc s) then osc s
            else if truthy_num prt then Some \<lparr>oid = next_id s, port = the prt\<rparr>
            else None)"
    and "trace (onAnyChanges_osc E a s) =
           trace s
           @ (case osc s of
                None \<Rightarrow> []
              | Some l \<Rightarrow> if same_port prt (osc s) then [] else [OscLoader_destroy (oid l)])
           @ (if truthy_num prt \<and> \<not> same_port prt (osc s)
              then [New_OscLoader (next_id s) (the prt),
                    OscLoader_on (next_id s) ''message'', OscLoader_on (next_id s) ''reload'']
              else [])"
    and "next_id (onAnyChanges_osc E a s) =
           (if truthy_num prt \<and> \<not> same_port prt (osc s) then next_id s + 1 else next_id s)"
  using assms
  by (cases "osc s"; cases prt;
      auto simp: onAnyChanges_osc_def emit_def Let_def same_port_def parseInt10_Number_toString)+

lemma onAnyChanges_blocks:
  obtains es1 es2 where
    "trace (onAnyChanges_server E a (onAnyChanges_glslangValidatorPath a s)) = trace s @ es1"
    and "filter is_osc_event es1 = []"
    and "filter is_playable_event es1 =
           (case added.server a of
              None \<Rightarrow> []
            | Some srv \<Rightarrow> [Playable_stop (playable_id (player s)),
                           New_Playable (player (onAnyChanges E a s))])"
    and "trace (onAnyChanges E a s) = trace s @ es1 @ es2"
    and "filter is_playable_event es2 = []"
proof -
  let ?s0 = "onAnyChanges_glslangValidatorPath a s"
  let ?s1 = "onAnyChanges_server E a ?s0"
  from server_block_trace [of E a ?s0] obtain es1 where
    1: "trace ?s1 = trace ?s0 @ es1" "filter is_osc_event es1 = []"
    "filter is_playable_event es1 =
       (case added.server a of
          None \<Rightarrow> []
        | Some srv \<Rightarrow> [Playable_stop (playable_id (player ?s0)), New_Playable (player ?s1)])"
    by blast
  from osc_block_trace_playable [of E a ?s1] obtain es2 where
    2: "trace (onAnyChanges_osc E a ?s1) = trace ?s1 @ es2" "filter is_playable_event es2 = []"
    by blast
  have p: "player (onAnyChanges E a s) = player ?s1"
    by (simp add: onAnyChanges_def osc_block_frame)
  show thesis
  proof (rule that [of es1 es2])
    show "trace ?s1 = trace s @ es1"
      using 1(1) by (simp add: validatorPath_block)
    show "filter is_osc_event es1 = []" by (rule 1(2))
    show "filter is_playable_event es1 =
           (case added.server a of
              None \<Rightarrow> []
            | Some srv \<Rightarrow> [Playable_stop (playable_id (player s)),
                           New_Playable (player (onAnyChanges E a s))])"
      using 1(3) by (simp add: validatorPath_block p split: option.splits)
    show "trace (onAnyChanges E a s) = trace s @ es1 @ es2"
      using 1(1) 2(1) by (simp add: onAnyChanges_def validatorPath_block)
    show "filter is_playable_event es2 = []" by (rule 2(2))
  qed
qed

text \<open>
  Claim C8. When the diff has the \<open>server\<close> option, the calls that \<open>onAnyChanges\<close> makes
  on backends are exactly two, in this order: \<open>stop\<close> on the backend that was live, and
  the construction of the backend that \<open>player\<close> holds afterwards. That backend is a
  \<open>PlayerServer\<close> for a truthy value and a \<open>Player\<close> otherwise, built from a fresh
  snapshot, the current \<open>isPlaying\<close> and \<open>lastShader\<close>. The fields \<open>isPlaying\<close>,
  \<open>lastShader\<close> and \<open>lastSoundShader\<close> are not changed.
\<close>

theorem backend_swap:
  assumes "added.server a = Some srv"
  shows "filter is_playable_event (new_events s (onAnyChanges E a s))
           = [Playable_stop (playable_id (player s)), New_Playable (player (onAnyChanges E a s))]
       \<and> player (onAnyChanges E a s)
           = (if truthy_num srv
              then PlayerServer (next_id s) (the srv) (createRc E (config s)) (isPlaying s)
                     (projectPath E (config s)) (lastShader s)
              else Player (next_id s + 1) (next_id s) (createRc E (config s)) (isPlaying s)
                     (lastShader s))
       \<and> isPlaying (onAnyChanges E a s) = isPlaying s
       \<and> lastShader (onAnyChanges E a s) = lastShader s
       \<and> lastSoundShader (onAnyChanges E a s) = lastSoundShader s"
proof -
  obtain es1 es2 where
    t: "trace (onAnyChanges E a s) = trace s @ es1 @ es2"
    and f1: "filter is_playable_event es1 =
           (case added.server a of
              None \<Rightarrow> []
            | Some srv \<Rightarrow> [Playable_stop (playable_id (player s)),
                           New_Playable (player (onAnyChanges E a s))])"
    and f2: "filter is_playable_event es2 = []"
    by (rule onAnyChanges_blocks [of E a s])
  have ev: "filter is_playable_event (new_events s (onAnyChanges E a s))
           = [Playable_stop (playable_id (player s)), New_Playable (player (onAnyChanges E a s))]"
    using f1 f2 assms by (simp add: new_events_append [OF t])
  have pl: "player (onAnyChanges E a s)
           = (if truthy_num srv
              then PlayerServer (next_id s) (the srv) (createRc E (config s)) (isPlaying s)
                     (projectPath E (config s)) (lastShader s)
              else Player (next_id s + 1) (next_id s) (createRc E (config s)) (isPlaying s)
                     (lastShader s))"
    using server_block_player [OF assms, of E "onAnyChanges_glslangValidatorPath a s"]
    by (simp add: onAnyChanges_def osc_block_frame validatorPath_block)
  have fr: "isPlaying (onAnyChanges E a s) = isPlaying s
       \<and> lastShader (onAnyChanges E a s) = lastShader s
       \<and> lastSoundShader (onAnyChanges E a s) = lastSoundShader s"
    by (simp add: onAnyChanges_def osc_block_frame server_block_frame validatorPath_block)
  from ev pl fr show ?thesis by simp
qed


theorem backend_swap_witness:
  "filter is_playable_event (new_events state0 (onAnyChanges env0 (diff_server (Some 3000)) state0))
     = [Playable_stop 1,
        New_Playable (PlayerServer 2 3000 (rc0 None) True ''/proj'' (lastShader state0))]
   \<and> player (onAnyChanges env0 (diff_server (Some 3000)) state0)
     = PlayerServer 2 3000 (rc0 None) True ''/proj'' (lastShader state0)
   \<and> filter is_playable_event (new_events state0 (onAnyChanges env0 (diff_server None) state0))
     = [Playable_stop 1, New_Playable (Player 3 2 (rc0 None) True (lastShader state0))]
   \<and> lastSoundShader (onAnyChanges env0 (diff_server None) state0) = ''initial sound''"
proof -
  have a: "added.server (diff_server (Some 3000)) = Some (Some 3000)"
    and b: "added.server (diff_server None) = Some None"
    by (simp_all add: diff_server_def)
  show ?thesis
    using backend_swap [OF a, of state0 env0] backend_swap [OF b, of state0 env0]
    by (simp add: env0_def state0_def)
qed

text \<open>
  The listener held by \<open>osc\<close> stays the only live one when a step destroys it unless it
  is kept, and constructs at most one new listener, only after that.
\<close>

lemma osc_owned_step:
  assumes "osc_owned s" and "trace s' = trace s @ es"
    and "filter is_osc_event es =
           (case osc s of
              None \<Rightarrow> []
            | Some l \<Rightarrow> if keep then [] else [OscLoader_destroy (oid l)])
           @ (if create then [New_OscLoader i p, OscLoader_on i ''message'', OscLoader_on i ''reload'']
              else [])"
    and "osc s' = (if keep then osc s else if create then Some \<lparr>oid = i, port = p\<rparr> else None)"
    and "keep \<longrightarrow> \<not> create"
  shows "osc_owned s'"
  using assms
  by (cases "osc s")
     (auto simp: osc_owned_def live_oscs_append split: if_splits)

text \<open>The definitions a concrete run of \<open>onAnyChanges\<close> unfolds.\<close>

lemmas onAnyChanges_eval =
  onAnyChanges_def onAnyChanges_glslangValidatorPath_def onAnyChanges_server_def
  onAnyChanges_osc_def emit_def Let_def diff_osc_def diff_server_def state0_def env0_def rc0_def
  same_port_def new_events_def Number_toString_def isSafeInteger_def
  parseInt10_nat_digits parseInt10_minus_nat_digits

lemma parseInt10_exponent: "parseInt10 ''1e+21'' = Some 1"
  by (simp add: parseInt10_def is_space_def is_digit_def digits_value_def)

text \<open>
  Claim C7 says that a listener is created exactly when the new port is present and
  none remains live, and that a live listener bound to the new port is kept. The source
  tests the port for truthiness, so the port \<open>0\<close>, with no listener live, creates none.
  And it compares the bound port with \<open>parseInt(port.toString(), 10)\<close>: a listener
  bound to \<open>10^21\<close>, which prints as \<open>1e+21\<close> and reads back as \<open>1\<close>, is destroyed and
  built again when the same number is configured.
\<close>

theorem osc_present_port_counterexample:
  "osc (onAnyChanges env0 (diff_osc (Some 0)) state0) = None
   \<and> filter is_osc_event (new_events state0 (onAnyChanges env0 (diff_osc (Some 0)) state0)) = []
   \<and> osc state_large = Some \<lparr>oid = 2, port = 10 ^ 21\<rparr>
   \<and> filter is_osc_event
        (new_events state_large (onAnyChanges env0 (diff_osc (Some (10 ^ 21))) state_large))
       = [OscLoader_destroy 2, New_OscLoader 3 (10 ^ 21),
          OscLoader_on 3 ''message'', OscLoader_on 3 ''reload'']"
  by (simp add: state_large_def onAnyChanges_eval parseInt10_exponent)

text \<open>
  Claim C7, amended. Let the new port be \<open>null\<close> or a safe integer, and call it present
  when it is truthy (neither \<open>null\<close> nor \<open>0\<close>). When the diff has the \<open>osc\<close> option: a
  live listener bound to the present new port is kept, with no call on any listener; a
  live listener is destroyed when the new port is not present or is another number,
  and the destruction comes before any construction; a listener is constructed, and
  subscribed to \<open>message\<close> and \<open>reload\<close>, exactly when the new port is present and no
  listener was kept; a port that is not present, without a live listener, changes
  nothing. If the listener in \<open>osc\<close> was the only live one before, it is so afterwards:
  at most one listener is live.
\<close>

theorem osc_reconfigure:
  assumes "added.osc a = Some prt"
    and "safe_port prt"
    and "osc_owned s"
    and "s' = onAnyChanges E a s"
  shows "osc s' = (if same_port prt (osc s) then osc s
                   else if truthy_num prt then Some \<lparr>oid = next_id s' - 1, port = the prt\<rparr>
                   else None)
       \<and> filter is_osc_event (new_events s s')
           = (case osc s of
                None \<Rightarrow> []
              | Some l \<Rightarrow> if same_port prt (osc s) then [] else [OscLoader_destroy (oid l)])
             @ (if truthy_num prt \<and> \<not> same_port prt (osc s)
                then [New_OscLoader (next_id s' - 1) (the prt),
                      OscLoader_on (next_id s' - 1) ''message'',
                      OscLoader_on (next_id s' - 1) ''reload'']
                else [])
       \<and> osc_owned s'
       \<and> card (live_oscs (trace s')) \<le> 1"
proof -
  let ?s1 = "onAnyChanges_server E a (onAnyChanges_glslangValidatorPath a s)"
  obtain es1 where t1: "trace ?s1 = trace s @ es1" and f1: "filter is_osc_event es1 = []"
    by (rule onAnyChanges_blocks [of E a s])
  have o1: "osc ?s1 = osc s"
    by (simp add: server_block_frame validatorPath_block)
  have s': "s' = onAnyChanges_osc E a ?s1"
    by (simp add: assms(4) onAnyChanges_def)
  note blk = osc_block [OF assms(1,2), of E ?s1, folded s', unfolded o1]
  have nid: "truthy_num prt \<and> \<not> same_port prt (osc s) \<Longrightarrow> next_id ?s1 = next_id s' - 1"
    using blk(3) by simp
  have osc': "osc s' = (if same_port prt (osc s) then osc s
                   else if truthy_num prt then Some \<lparr>oid = next_id s' - 1, port = the prt\<rparr>
                   else None)"
    using blk(1) nid by simp
  let ?es2 = "(case osc s of
                None \<Rightarrow> []
              | Some l \<Rightarrow> if same_port prt (osc s) then [] else [OscLoader_destroy (oid l)])
             @ (if truthy_num prt \<and> \<not> same_port prt (osc s)
                then [New_OscLoader (next_id s' - 1) (the prt),
                      OscLoader_on (next_id s' - 1) ''message'',
                      OscLoader_on (next_id s' - 1) ''reload'']
                else [])"
  have t: "trace s' = trace s @ (es1 @ ?es2)"
    using blk(2) nid t1 by simp
  have f2: "filter is_osc_event ?es2 = ?es2"
    by (simp split: option.splits)
  have ev: "filter is_osc_event (new_events s s') = ?es2"
    unfolding new_events_append [OF t] using f1 f2 by simp
  have fe: "filter is_osc_event (es1 @ ?es2) = ?es2"
    using f1 f2 by simp
  have owned: "osc_owned s'"
    by (rule osc_owned_step [OF assms(3) t, where keep = "same_port prt (osc s)"
          and create = "truthy_num prt \<and> \<not> same_port prt (osc s)"
          and i = "next_id s' - 1" and p = "the prt"])
       (use fe osc' in auto)
  from owned have "card (live_oscs (trace s')) \<le> 1"
    by (simp add: osc_owned_def split: option.splits)
  with osc' ev owned show ?thesis by simp
qed


theorem osc_reconfigure_witness:
  "osc state7000 = Some \<lparr>oid = 2, port = 7000\<rparr>
   \<and> filter is_osc_event (new_events state0 state7000)
       = [New_OscLoader 2 7000, OscLoader_on 2 ''message'', OscLoader_on 2 ''reload'']
   \<and> osc (onAnyChanges env0 (diff_osc (Some 7000)) state7000) = osc state7000
   \<and> filter is_osc_event (new_events state7000 (onAnyChanges env0 (diff_osc (Some 7000)) state7000))
       = []
   \<and> filter is_osc_event (new_events state7000 (onAnyChanges env0 (diff_osc (Some 7001)) state7000))
       = [OscLoader_destroy 2, New_OscLoader 3 7001,
          OscLoader_on 3 ''message'', OscLoader_on 3 ''reload'']
   \<and> card (live_oscs (trace (onAnyChanges env0 (diff_osc (Some 7001)) state7000))) \<le> 1
   \<and> filter is_osc_event (new_events state7000 (onAnyChanges env0 (diff_osc None) state7000))
       = [OscLoader_destroy 2]
   \<and> osc (onAnyChanges env0 (diff_osc None) state7000) = None
   \<and> filter is_osc_event (new_events state0 (onAnyChanges env0 (diff_osc None) state0)) = []
   \<and> osc (onAnyChanges env0 (diff_osc None) state0) = None"
proof -
  have d: "added.osc (diff_osc prt) = Some prt" for prt
    by (simp add: diff_osc_def)
  have safe: "safe_port (Some 7000)" "safe_port (Some 7001)" "safe_port None"
    by (simp_all add: isSafeInteger_def)
  have owned0: "osc_owned state0"
    by (simp add: osc_owned_def live_oscs_def state0_def)
  have o0: "osc state0 = None"
    by (simp add: state0_def)
  have n1: "next_id state7000 = 3"
    by (simp add: state7000_def onAnyChanges_eval)
  have s1: "state7000 = onAnyChanges env0 (diff_osc (Some 7000)) state0"
    by (simp add: state7000_def)
  note first = osc_reconfigure [OF d safe(1) owned0 s1]
  have o1: "osc state7000 = Some \<lparr>oid = 2, port = 7000\<rparr>"
    using first by (simp add: o0 n1 same_port_def)
  have e1: "filter is_osc_event (new_events state0 state7000)
       = [New_OscLoader 2 7000, OscLoader_on 2 ''message'', OscLoader_on 2 ''reload'']"
    using first by (simp add: o0 n1 same_port_def)
  have owned1: "osc_owned state7000"
    using first by simp
  have n2: "next_id (onAnyChanges env0 (diff_osc (Some 7001)) state7000) = 4"
    by (simp add: state7000_def onAnyChanges_eval)
  note again = osc_reconfigure [where prt = "Some 7000" and E = env0, OF d safe(1) owned1 refl]
  note other = osc_reconfigure [where prt = "Some 7001" and E = env0, OF d safe(2) owned1 refl]
  note clear = osc_reconfigure [where prt = None and E = env0, OF d safe(3) owned1 refl]
  note clear0 = osc_reconfigure [where prt = None and E = env0, OF d safe(3) owned0 refl]
  have a: "osc (onAnyChanges env0 (diff_osc (Some 7000)) state7000) = osc state7000
     \<and> filter is_osc_event (new_events state7000 (onAnyChanges env0 (diff_osc (Some 7000)) state7000))
       = []"
    using again by (simp add: o1 same_port_def)
  have b: "filter is_osc_event (new_events state7000 (onAnyChanges env0 (diff_osc (Some 7001)) state7000))
       = [OscLoader_destroy 2, New_OscLoader 3 7001,
          OscLoader_on 3 ''message'', OscLoader_on 3 ''reload'']
     \<and> card (live_oscs (trace (onAnyChanges env0 (diff_osc (Some 7001)) state7000))) \<le> 1"
    using other by (simp add: o1 n2 same_port_def)
  have c: "filter is_osc_event (new_events state7000 (onAnyChanges env0 (diff_osc None) state7000))
       = [OscLoader_destroy 2]
     \<and> osc (onAnyChanges env0 (diff_osc None) state7000) = None"
    using clear by (simp add: o1 same_port_def)
  have e: "filter is_osc_event (new_events state0 (onAnyChanges env0 (diff_osc None) state0)) = []
     \<and> osc (onAnyChanges env0 (diff_osc None) state0) = None"
    using clear0 by (simp add: o0 same_port_def)
  from o1 e1 a b c e show ?thesis by simp
qed



end
